theory Spec2Isabelle
  imports Main "HOL-Library.Word"
begin

unbundle bit_operations_syntax

section \<open>The consolidated-logging slot engine (src/log/log_slot.c)\<close>

text \<open>
  A shallow embedding of the slot functions of \<^verbatim>\<open>log_slot.c\<close>. Pointers to slots are
  indices into the slot pool (\<open>None\<close> is the null pointer), C integers are words of
  their width, and each function takes the log and returns it updated. Every slot the
  code handles lies in the pool, so an index beyond the pool stands for no pointer: the
  theorems about a slot \<open>i\<close> that is written assume \<open>i < length (slot_pool log)\<close>.

  The model runs one call at a time: an atomic primitive is a function on the value
  it reads, and nothing else writes between a load and the compare-and-swap after it.
  Where the code yields the processor (\<^verbatim>\<open>__wt_yield\<close>), the other threads are a
  parameter \<open>yld\<close> that transforms the log. A loop that can spin for ever is a
  \<^theory_text>\<open>partial_function\<close> in the option monad: \<open>None\<close> is a call that does not return.

  \<^verbatim>\<open>WT_ASSERT\<close> is compiled only into diagnostic builds, where a false condition
  aborts. The model keeps executing, as the production build does, and returns the
  list of assertions whose condition was false: an empty list is a run on which the
  diagnostic build does not abort. Statistics counters are left out.
\<close>

subsection \<open>Data\<close>

text \<open>
  Modelled from the spec: the structures \<^verbatim>\<open>WT_LSN\<close>, \<^verbatim>\<open>WT_LOGSLOT\<close>, \<^verbatim>\<open>WT_LOG\<close> and
  \<^verbatim>\<open>WT_MYSLOT\<close> and the flag constants, which are declared in headers that are not among
  the sources. The records hold the fields that \<^verbatim>\<open>log_slot.c\<close> reads or writes, under the
  names it uses, with the meaning of section 3 of the specification: an LSN is a 32-bit
  file number and a 64-bit offset; \<^verbatim>\<open>wt_off_t\<close> is a signed 64-bit integer; a set of
  flags is the set of the flags that are on; a file handle is a number; a buffer is its
  bytes, or \<open>None\<close> once it is freed.
\<close>

record wt_lsn =
  lsn_file :: "32 word"
  lsn_offset :: "64 word"

datatype slot_flag = WT_SLOT_SYNC | WT_SLOT_SYNC_DIR

datatype log_flag = WT_LOG_FORCE_CONSOLIDATE

datatype write_flag = WT_LOG_DSYNC | WT_LOG_FSYNC

datatype session_flag = WT_SESSION_LOCKED_SLOT

record wt_logslot =
  slot_state :: "64 word"
  slot_unbuffered :: "64 word"
  slot_error :: int
  slot_start_offset :: "64 word"
  slot_last_offset :: "64 word"
  slot_release_lsn :: wt_lsn
  slot_start_lsn :: wt_lsn
  slot_end_lsn :: wt_lsn
  slot_fh :: nat
  slot_buf :: "8 word list option"
  slot_flags :: "slot_flag set"

record wt_log =
  log_flags :: "log_flag set"
  alloc_lsn :: wt_lsn
  write_lsn :: wt_lsn
  log_fh :: nat
  active_slot :: "nat option"
  slot_pool :: "wt_logslot list"
  slot_buf_size :: "32 word"

record wt_myslot =
  myslot_slot :: "nat option"
  myslot_offset :: "64 word"
  myslot_end_offset :: "64 word"

datatype fault = Null_pointer

datatype assertion =
    Assert_locked_slot
  | Assert_not_locked_slot
  | Assert_alloc_file
  | Assert_release_zero
  | Assert_joined_gt_released
  | Assert_size_maximum
  | Assert_probe_size_zero

text \<open>Modelled from the spec: the macro WT_ASSERT ("caller-misuse assertions ... treated
  as programming errors"). It yields the assertion when its condition is false.\<close>
definition WT_ASSERT :: "bool \<Rightarrow> assertion \<Rightarrow> assertion list" where
  "WT_ASSERT c a = (if c then [] else [a])"

subsection \<open>The packed state word\<close>

text \<open>
  The macros on the state word are declared in a header that is not among the
  sources. Each definition below is modelled from section 3.2 of the specification.
\<close>

text \<open>Modelled from the spec: the macro WT_LOG_SLOT_CLOSE, a flag among the top bits
  of the state word ("slot no longer accepts joins").\<close>
definition WT_LOG_SLOT_CLOSE :: "64 word" where
  "WT_LOG_SLOT_CLOSE = 0x4000000000000000"

text \<open>Modelled from the spec: the macro WT_LOG_SLOT_RESERVED, a flag among the top
  bits of the state word ("slot post-free, not reusable yet").\<close>
definition WT_LOG_SLOT_RESERVED :: "64 word" where
  "WT_LOG_SLOT_RESERVED = 0x8000000000000000"

text \<open>Modelled from the spec: the macro WT_LOG_SLOT_FREE, "the sentinel literal value
  indicating the slot sits in the pool". A freed slot counts as reserved for
  \<^verbatim>\<open>slot_close\<close> ("slot has been fully processed and freed"), so the literal has the
  RESERVED bit; all ones is taken.\<close>
definition WT_LOG_SLOT_FREE :: "64 word" where
  "WT_LOG_SLOT_FREE = - 1"

text \<open>Modelled from the spec: the macro WT_LOG_SLOT_MAXIMUM (SLOT_MAX), the "upper
  bound on join size", which "must be representable in the JOINED bitfield": the
  largest value of a 24-bit field.\<close>
definition WT_LOG_SLOT_MAXIMUM :: "64 word" where
  "WT_LOG_SLOT_MAXIMUM = 0xFFFFFF"

text \<open>Modelled from the spec: the macro WT_LOG_SLOT_FLAGS, the flag bits, which are
  the top 16 bits of the word.\<close>
definition WT_LOG_SLOT_FLAGS :: "64 word \<Rightarrow> 64 word" where
  "WT_LOG_SLOT_FLAGS s = s AND 0xFFFF000000000000"

text \<open>Modelled from the spec: the macro WT_LOG_SLOT_JOINED, the join counter, which is
  the low 24 bits of the word.\<close>
definition WT_LOG_SLOT_JOINED :: "64 word \<Rightarrow> 64 word" where
  "WT_LOG_SLOT_JOINED s = s AND 0xFFFFFF"

text \<open>Modelled from the spec: the macro WT_LOG_SLOT_RELEASED, the release counter,
  which is the middle 24 bits of the word.\<close>
definition WT_LOG_SLOT_RELEASED :: "64 word \<Rightarrow> 64 word" where
  "WT_LOG_SLOT_RELEASED s = drop_bit 24 s AND 0xFFFFFF"

text \<open>Modelled from the spec: the macro WT_LOG_SLOT_JOIN_REL, which "composes a new
  state from field values". The release path adds \<open>JOIN_REL(0, size, 0)\<close> to the word
  to "add size into the RELEASED bitfield", so the fields are shifted into place and
  summed.\<close>
definition WT_LOG_SLOT_JOIN_REL :: "64 word \<Rightarrow> 64 word \<Rightarrow> 64 word \<Rightarrow> 64 word" where
  "WT_LOG_SLOT_JOIN_REL j r f = j + push_bit 24 r + f"

text \<open>Modelled from the spec: the macro FLD64_ISSET, the test that a flag of the mask
  is set in the field.\<close>
definition FLD64_ISSET :: "64 word \<Rightarrow> 64 word \<Rightarrow> bool" where
  "FLD64_ISSET field msk = (field AND msk \<noteq> 0)"

text \<open>Modelled from the spec: the macro WT_LOG_SLOT_OPEN, "no flag bits set".\<close>
definition WT_LOG_SLOT_OPEN :: "64 word \<Rightarrow> bool" where
  "WT_LOG_SLOT_OPEN s = (WT_LOG_SLOT_FLAGS s = 0)"

text \<open>Modelled from the spec: the macro WT_LOG_SLOT_CLOSED, "CLOSE flag set".\<close>
definition WT_LOG_SLOT_CLOSED :: "64 word \<Rightarrow> bool" where
  "WT_LOG_SLOT_CLOSED s = FLD64_ISSET s WT_LOG_SLOT_CLOSE"

text \<open>Modelled from the spec: the macro WT_LOG_SLOT_DONE, "CLOSE set and
  JOINED == RELEASED".\<close>
definition WT_LOG_SLOT_DONE :: "64 word \<Rightarrow> bool" where
  "WT_LOG_SLOT_DONE s =
     (WT_LOG_SLOT_CLOSED s \<and> WT_LOG_SLOT_JOINED s = WT_LOG_SLOT_RELEASED s)"

subsection \<open>Atomic primitives\<close>

text \<open>Modelled from the spec: the primitive __wt_atomic_casiv64, compare-and-swap on a
  64-bit location. It takes the location's value, and returns whether the swap took
  place and the location's value afterwards.\<close>
definition wt_atomic_casiv64 :: "64 word \<Rightarrow> 64 word \<Rightarrow> 64 word \<Rightarrow> bool \<times> 64 word" where
  "wt_atomic_casiv64 cur old new = (if cur = old then (True, new) else (False, cur))"

text \<open>Modelled from the spec: the primitive __wt_atomic_addiv64, atomic add that
  returns "the post-add state". The result is both the returned value and the
  location's value afterwards.\<close>
definition wt_atomic_addiv64 :: "64 word \<Rightarrow> 64 word \<Rightarrow> 64 word" where
  "wt_atomic_addiv64 cur v = cur + v"

subsection \<open>Access to a slot of the pool\<close>

definition slot_at :: "wt_log \<Rightarrow> nat \<Rightarrow> wt_logslot" where
  "slot_at log i = slot_pool log ! i"

definition slot_set :: "wt_log \<Rightarrow> nat \<Rightarrow> wt_logslot \<Rightarrow> wt_log" where
  "slot_set log i s = log\<lparr>slot_pool := (slot_pool log)[i := s]\<rparr>"

subsection \<open>__wt_log_slot_activate\<close>

definition wt_log_slot_activate :: "wt_log \<Rightarrow> nat \<Rightarrow> wt_log" where
  "wt_log_slot_activate log i =
     slot_set log i ((slot_at log i)\<lparr>
       slot_state := 0,
       slot_start_lsn := alloc_lsn log,
       slot_end_lsn := alloc_lsn log,
       slot_start_offset := lsn_offset (alloc_lsn log),
       slot_last_offset := lsn_offset (alloc_lsn log),
       slot_fh := log_fh log,
       slot_error := 0,
       slot_unbuffered := 0\<rparr>)"

subsection \<open>__wt_log_slot_close\<close>

text \<open>The code from the label \<^verbatim>\<open>retry\<close> on. The result is the return value, the
  caller's \<^verbatim>\<open>*releasep\<close> (\<open>None\<close> for a null pointer), the log, and the failed
  assertions.\<close>

partial_function (option) slot_close_retry ::
  "wt_log \<Rightarrow> nat \<Rightarrow> int option \<Rightarrow> (int \<times> int option \<times> wt_log \<times> assertion list) option"
where
  "slot_close_retry log i releasep =
     (let slot = slot_at log i;
          old_state = slot_state slot
      in if WT_LOG_SLOT_CLOSED old_state then Some (0, releasep, log, [])
         else if FLD64_ISSET (slot_state slot) WT_LOG_SLOT_RESERVED
         then Some (0, releasep, log, [])
         else
           let new_state = old_state OR WT_LOG_SLOT_CLOSE;
               cas = wt_atomic_casiv64 (slot_state slot) old_state new_state
           in if \<not> fst cas then slot_close_retry log i releasep
              else
                let slot1 = slot\<lparr>slot_state := snd cas\<rparr>;
                    releasep1 = (if WT_LOG_SLOT_DONE new_state \<and> releasep \<noteq> None
                                 then Some 1 else releasep);
                    slot2 = slot1\<lparr>slot_end_lsn := slot_start_lsn slot1\<rparr>;
                    end_offset = WT_LOG_SLOT_JOINED old_state;
                    slot3 = slot2\<lparr>slot_end_lsn := (slot_end_lsn slot2)
                              \<lparr>lsn_offset := lsn_offset (slot_end_lsn slot2) + end_offset\<rparr>\<rparr>;
                    log1 = (slot_set log i slot3)\<lparr>alloc_lsn := slot_end_lsn slot3\<rparr>
                in Some (0, releasep1, log1,
                     WT_ASSERT (lsn_file (write_lsn log1) \<le> lsn_file (alloc_lsn log1))
                       Assert_alloc_file))"

definition wt_log_slot_close ::
  "session_flag set \<Rightarrow> wt_log \<Rightarrow> nat option \<Rightarrow> int option
     \<Rightarrow> (int \<times> int option \<times> wt_log \<times> assertion list) option"
where
  "wt_log_slot_close session log slot releasep =
     (let a = WT_ASSERT (WT_SESSION_LOCKED_SLOT \<in> session) Assert_locked_slot;
          releasep0 = (if releasep \<noteq> None then Some 0 else releasep)
      in case slot of
           None \<Rightarrow> Some (0, releasep0, log, a)
         | Some i \<Rightarrow>
             map_option (\<lambda>(ret, rp, log1, b). (ret, rp, log1, a @ b))
               (slot_close_retry log i releasep0))"

subsection \<open>__wt_log_slot_new\<close>

text \<open>
  \<^verbatim>\<open>__wt_log_acquire\<close> belongs to the log core and is not among the sources: it is the
  parameter \<open>acq\<close>, which takes the record size, the slot and the log, and returns its
  return value and the log as it leaves it. The pool is a fixed array of
  \<^verbatim>\<open>WT_SLOT_POOL\<close> slots: the constant is the length of \<open>slot_pool\<close>.
\<close>

type_synonym acquire = "32 word \<Rightarrow> nat \<Rightarrow> wt_log \<Rightarrow> int \<times> wt_log"

text \<open>The inner \<^verbatim>\<open>for\<close> loop, from index \<open>i\<close>: \<open>None\<close> when the pass ends without a
  free slot.\<close>

function slot_new_scan :: "acquire \<Rightarrow> wt_log \<Rightarrow> nat \<Rightarrow> (int \<times> wt_log) option" where
  "slot_new_scan acq log i =
     (if i < length (slot_pool log)
      then if slot_state (slot_at log i) = WT_LOG_SLOT_FREE
           then (let r = acq (slot_buf_size log) i log
                 in if fst r \<noteq> 0 then Some (fst r, snd r)
                    else Some (0, (snd r)\<lparr>active_slot := Some i\<rparr>))
           else slot_new_scan acq log (i + 1)
      else None)"
  by pat_completeness auto
termination
  by (relation "measure (\<lambda>(acq, log, i). length (slot_pool log) - i)") auto

text \<open>The outer \<^verbatim>\<open>for (;;)\<close>: a pass without a free slot signals the worker and
  yields, then scans again.\<close>

partial_function (option) slot_new_loop ::
  "(wt_log \<Rightarrow> wt_log) \<Rightarrow> acquire \<Rightarrow> wt_log \<Rightarrow> (int \<times> wt_log) option"
where
  "slot_new_loop yld acq log =
     (case slot_new_scan acq log 0 of
        Some r \<Rightarrow> Some r
      | None \<Rightarrow> slot_new_loop yld acq (yld log))"

definition wt_log_slot_new ::
  "(wt_log \<Rightarrow> wt_log) \<Rightarrow> acquire \<Rightarrow> session_flag set \<Rightarrow> wt_log
     \<Rightarrow> (int \<times> wt_log \<times> assertion list) option"
where
  "wt_log_slot_new yld acq session log =
     (let a = WT_ASSERT (WT_SESSION_LOCKED_SLOT \<in> session) Assert_locked_slot
      in if WT_LOG_FORCE_CONSOLIDATE \<notin> log_flags log then Some (0, log, a)
         else if (case active_slot log of
                    None \<Rightarrow> False
                  | Some i \<Rightarrow> WT_LOG_SLOT_OPEN (slot_state (slot_at log i)))
         then Some (0, log, a)
         else map_option (\<lambda>(ret, log1). (ret, log1, a)) (slot_new_loop yld acq log))"

subsection \<open>__wt_log_slot_switch\<close>

text \<open>
  \<^verbatim>\<open>dummy\<close> is not initialised; \<^verbatim>\<open>__wt_log_slot_close\<close> stores 0 in it before
  anything reads it, so the model hands over 0. The block under
  \<^verbatim>\<open>HAVE_DIAGNOSTIC\<close> reads the slot through the pointer: with a null pointer its
  assertion counts as failed.
\<close>

definition wt_log_slot_switch ::
  "(wt_log \<Rightarrow> wt_log) \<Rightarrow> acquire \<Rightarrow> session_flag set \<Rightarrow> wt_log \<Rightarrow> nat option
     \<Rightarrow> (int \<times> wt_log \<times> assertion list) option"
where
  "wt_log_slot_switch yld acq session log slot =
     (let a = WT_ASSERT (WT_SESSION_LOCKED_SLOT \<in> session) Assert_locked_slot
      in if slot \<noteq> active_slot log then Some (0, log, a)
         else
           case wt_log_slot_close session log slot (Some 0) of
             None \<Rightarrow> None
           | Some (ret, dummy, log1, b) \<Rightarrow>
               if ret \<noteq> 0 then Some (ret, log1, a @ b)
               else
                 let c = WT_ASSERT (dummy = Some 0) Assert_release_zero;
                     d = (case slot of
                            None \<Rightarrow> [Assert_joined_gt_released]
                          | Some i \<Rightarrow>
                              let state = slot_state (slot_at log1 i);
                                  j = (ucast (WT_LOG_SLOT_JOINED state) :: 32 word);
                                  r = (ucast (WT_LOG_SLOT_RELEASED state) :: 32 word)
                              in WT_ASSERT (sint r < sint j) Assert_joined_gt_released)
                 in case wt_log_slot_new yld acq session log1 of
                      None \<Rightarrow> None
                    | Some (ret2, log2, e) \<Rightarrow> Some (ret2, log2, a @ b @ c @ d @ e))"

subsection \<open>__wt_log_slot_destroy\<close>

text \<open>
  \<^verbatim>\<open>__wt_write\<close> belongs to the file layer: it is the parameter \<open>wr\<close>, which takes the
  file handle, the offset, the length and the buffer, and gives the return value.
  The writes that succeeded are collected in order. \<^verbatim>\<open>__wt_buf_free\<close> leaves the
  buffer null.
\<close>

type_synonym write_req = "nat \<times> 64 word \<times> 64 word \<times> 8 word list option"

function slot_destroy_loop ::
  "(write_req \<Rightarrow> int) \<Rightarrow> wt_log \<Rightarrow> write_req list \<Rightarrow> nat \<Rightarrow> int \<times> wt_log \<times> write_req list"
where
  "slot_destroy_loop wr log written i =
     (if i < length (slot_pool log)
      then
        let slot = slot_at log i;
            freed = slot_set log i (slot\<lparr>slot_buf := None\<rparr>)
        in if \<not> FLD64_ISSET (slot_state slot) WT_LOG_SLOT_RESERVED
           then
             let rel = WT_LOG_SLOT_RELEASED (slot_state slot);
                 write_size = rel - slot_unbuffered slot
             in if write_size \<noteq> 0
                then
                  let req = (slot_fh slot, slot_start_offset slot, write_size, slot_buf slot);
                      ret = wr req
                  in if ret \<noteq> 0 then (ret, log, written)
                     else slot_destroy_loop wr freed (written @ [req]) (i + 1)
                else slot_destroy_loop wr freed written (i + 1)
           else slot_destroy_loop wr freed written (i + 1)
      else (0, log, written))"
  by pat_completeness auto
termination
  by (relation "measure (\<lambda>(wr, log, written, i). length (slot_pool log) - i)")
    (auto simp: slot_set_def)

definition wt_log_slot_destroy ::
  "(write_req \<Rightarrow> int) \<Rightarrow> wt_log \<Rightarrow> int \<times> wt_log \<times> write_req list" where
  "wt_log_slot_destroy wr log = slot_destroy_loop wr log [] 0"

subsection \<open>__wt_log_slot_join\<close>

text \<open>The \<^verbatim>\<open>for (;;)\<close> loop. It returns the log after the winning compare-and-swap,
  the slot joined and \<^verbatim>\<open>join_offset\<close>. The pointer read at the top of the loop is
  dereferenced unchecked.\<close>

partial_function (option) slot_join_loop ::
  "(wt_log \<Rightarrow> wt_log) \<Rightarrow> wt_log \<Rightarrow> 64 word \<Rightarrow> (fault + wt_log \<times> nat \<times> 32 word) option"
where
  "slot_join_loop yld log mysize =
     (case active_slot log of
        None \<Rightarrow> Some (Inl Null_pointer)
      | Some i \<Rightarrow>
          let slot = slot_at log i;
              old_state = slot_state slot;
              flag_state = WT_LOG_SLOT_FLAGS old_state;
              released = (ucast (WT_LOG_SLOT_RELEASED old_state) :: 32 word);
              join_offset = (ucast (WT_LOG_SLOT_JOINED old_state) :: 32 word);
              new_join = join_offset + (ucast mysize :: 32 word);
              new_state = WT_LOG_SLOT_JOIN_REL (scast new_join) (scast released) flag_state
          in if WT_LOG_SLOT_OPEN old_state
                \<and> fst (wt_atomic_casiv64 (slot_state slot) old_state new_state)
             then Some (Inr
                    (slot_set log i (slot\<lparr>slot_state :=
                        snd (wt_atomic_casiv64 (slot_state slot) old_state new_state)\<rparr>),
                     i, join_offset))
             else slot_join_loop yld (yld log) mysize)"

definition F_SET_slot :: "wt_log \<Rightarrow> nat \<Rightarrow> slot_flag \<Rightarrow> wt_log" where
  "F_SET_slot log i f =
     slot_set log i ((slot_at log i)\<lparr>slot_flags := insert f (slot_flags (slot_at log i))\<rparr>)"

definition wt_log_slot_join ::
  "(wt_log \<Rightarrow> wt_log) \<Rightarrow> session_flag set \<Rightarrow> wt_log \<Rightarrow> 64 word \<Rightarrow> write_flag set
     \<Rightarrow> wt_myslot \<Rightarrow> (fault + int \<times> wt_log \<times> wt_myslot \<times> assertion list) option"
where
  "wt_log_slot_join yld session log mysize flags myslotp =
     (let a = WT_ASSERT (mysize < WT_LOG_SLOT_MAXIMUM) Assert_size_maximum
            @ WT_ASSERT (WT_SESSION_LOCKED_SLOT \<notin> session) Assert_not_locked_slot
      in if active_slot log = None
         then Some (Inr (0, log, myslotp, a @ WT_ASSERT (mysize = 0) Assert_probe_size_zero))
         else
           case slot_join_loop yld log mysize of
             None \<Rightarrow> None
           | Some (Inl f) \<Rightarrow> Some (Inl f)
           | Some (Inr (log1, i, join_offset)) \<Rightarrow>
               let log2 = (if flags \<inter> {WT_LOG_DSYNC, WT_LOG_FSYNC} \<noteq> {}
                           then F_SET_slot log1 i WT_SLOT_SYNC_DIR else log1);
                   log3 = (if flags \<inter> {WT_LOG_FSYNC} \<noteq> {}
                           then F_SET_slot log2 i WT_SLOT_SYNC else log2)
               in Some (Inr (0, log3,
                    myslotp\<lparr>myslot_slot := Some i,
                            myslot_offset := scast join_offset,
                            myslot_end_offset := scast join_offset + mysize\<rparr>,
                    a)))"

subsection \<open>__wt_log_slot_release\<close>

text \<open>The \<^verbatim>\<open>while\<close> loop that raises \<^verbatim>\<open>slot_last_offset\<close>; \<^verbatim>\<open>wt_off_t\<close> is signed.\<close>

partial_function (option) slot_release_loop ::
  "wt_log \<Rightarrow> nat \<Rightarrow> 64 word \<Rightarrow> wt_log option"
where
  "slot_release_loop log i my_start =
     (let slot = slot_at log i;
          cur_offset = slot_last_offset slot
      in if sint cur_offset < sint my_start
         then
           let cas = wt_atomic_casiv64 (slot_last_offset slot) cur_offset my_start
           in if fst cas then Some (slot_set log i (slot\<lparr>slot_last_offset := snd cas\<rparr>))
              else slot_release_loop log i my_start
         else Some log)"

definition wt_log_slot_release ::
  "wt_log \<Rightarrow> wt_myslot \<Rightarrow> 64 word \<Rightarrow> (fault + 64 word \<times> wt_log) option"
where
  "wt_log_slot_release log myslot sz =
     (case myslot_slot myslot of
        None \<Rightarrow> Some (Inl Null_pointer)
      | Some i \<Rightarrow>
          let my_start = slot_start_offset (slot_at log i) + myslot_offset myslot
          in case slot_release_loop log i my_start of
               None \<Rightarrow> None
             | Some log1 \<Rightarrow>
                 let my_size = WT_LOG_SLOT_JOIN_REL 0 sz 0;
                     v = wt_atomic_addiv64 (slot_state (slot_at log1 i)) my_size
                 in Some (Inr (v, slot_set log1 i ((slot_at log1 i)\<lparr>slot_state := v\<rparr>))))"

section \<open>Sequences of joins and releases on one slot\<close>

text \<open>
  The joins and releases that threads perform on the active slot, in the order in which
  their atomic updates of the state word take effect. A join is a call of
  \<^verbatim>\<open>__wt_log_slot_join\<close> with its size and flags; a release is a call of
  \<^verbatim>\<open>__wt_log_slot_release\<close> with the offset of the handle and the size released.
  A compare-and-swap that loses writes nothing, so only the winning ones have a place in
  the sequence. \<open>run_events\<close> runs the calls one after the other and collects the span
  \<open>(offset, end_offset)\<close> that each join hands out; it is \<open>None\<close> when a call does not
  return or faults.
\<close>

datatype slot_event = Join "64 word" "write_flag set" | Release "64 word" "64 word"

definition empty_myslot :: wt_myslot where
  "empty_myslot = \<lparr>myslot_slot = None, myslot_offset = 0, myslot_end_offset = 0\<rparr>"

fun run_events ::
  "(wt_log \<Rightarrow> wt_log) \<Rightarrow> session_flag set \<Rightarrow> wt_log \<Rightarrow> slot_event list
     \<Rightarrow> (wt_log \<times> (64 word \<times> 64 word) list) option"
where
  "run_events yld session log [] = Some (log, [])"
| "run_events yld session log (Join mysize flags # es) =
     (case wt_log_slot_join yld session log mysize flags empty_myslot of
        Some (Inr (ret, log1, myslot, failed)) \<Rightarrow>
          (case run_events yld session log1 es of
             None \<Rightarrow> None
           | Some (log2, spans) \<Rightarrow>
               Some (log2, (myslot_offset myslot, myslot_end_offset myslot) # spans))
      | _ \<Rightarrow> None)"
| "run_events yld session log (Release off sz # es) =
     (case wt_log_slot_release log
             \<lparr>myslot_slot = active_slot log, myslot_offset = off, myslot_end_offset = off + sz\<rparr>
             sz of
        Some (Inr (st, log1)) \<Rightarrow> run_events yld session log1 es
      | _ \<Rightarrow> None)"

fun joined_sizes :: "slot_event list \<Rightarrow> nat list" where
  "joined_sizes [] = []"
| "joined_sizes (Join mysize flags # es) = unat mysize # joined_sizes es"
| "joined_sizes (Release off sz # es) = joined_sizes es"

fun released_sizes :: "slot_event list \<Rightarrow> nat list" where
  "released_sizes [] = []"
| "released_sizes (Join mysize flags # es) = released_sizes es"
| "released_sizes (Release off sz # es) = unat sz # released_sizes es"

text \<open>\<open>contiguous a xs b\<close>: the spans \<open>xs\<close>, in order, start at \<open>a\<close>, each starts where the one
  before it ends, and the last ends at \<open>b\<close>.\<close>

fun contiguous :: "nat \<Rightarrow> (nat \<times> nat) list \<Rightarrow> nat \<Rightarrow> bool" where
  "contiguous a [] b = (a = b)"
| "contiguous a ((lo, hi) # xs) b = (lo = a \<and> lo \<le> hi \<and> contiguous hi xs b)"

definition span :: "64 word \<times> 64 word \<Rightarrow> nat \<times> nat" where
  "span p = (unat (fst p), unat (snd p))"

definition span_set :: "nat \<times> nat \<Rightarrow> nat set" where
  "span_set p = {fst p ..< snd p}"

subsection \<open>Example values\<close>

definition example_lsn :: wt_lsn where
  "example_lsn = \<lparr>lsn_file = 1, lsn_offset = 128\<rparr>"

definition example_slot :: "64 word \<Rightarrow> wt_logslot" where
  "example_slot st =
     \<lparr>slot_state = st, slot_unbuffered = 0, slot_error = 0, slot_start_offset = 128,
      slot_last_offset = 128, slot_release_lsn = example_lsn, slot_start_lsn = example_lsn,
      slot_end_lsn = example_lsn, slot_fh = 3, slot_buf = Some [], slot_flags = {}\<rparr>"

definition example_log :: "64 word list \<Rightarrow> wt_log" where
  "example_log sts =
     \<lparr>log_flags = {WT_LOG_FORCE_CONSOLIDATE}, alloc_lsn = example_lsn,
      write_lsn = \<lparr>lsn_file = 1, lsn_offset = 0\<rparr>, log_fh = 3, active_slot = Some 0,
      slot_pool = map example_slot sts, slot_buf_size = 0x40000\<rparr>"

text \<open>An acquire that succeeds and activates the slot, and one that fails with
  \<^verbatim>\<open>ENOSPC\<close> and leaves the log as it was.\<close>

definition example_acquire :: acquire where
  "example_acquire recsize i log = (0, wt_log_slot_activate log i)"

definition failing_acquire :: acquire where
  "failing_acquire recsize i log = (28, log)"

text \<open>A write that fails with \<^verbatim>\<open>EIO\<close> on file handle 3 and succeeds elsewhere, and a pool
  of two slots with 5 and 7 released bytes, the first on handle 3, the second on
  handle 4.\<close>

definition failing_write :: "write_req \<Rightarrow> int" where
  "failing_write req = (if fst req = 3 then 5 else 0)"

definition destroy_example_log :: wt_log where
  "destroy_example_log =
     (example_log [0x5000000, 0x7000000])
       \<lparr>slot_pool := [example_slot 0x5000000, (example_slot 0x7000000)\<lparr>slot_fh := 4\<rparr>]\<rparr>"

declare slot_new_scan.simps [simp del]

declare slot_destroy_loop.simps [simp del]

section \<open>Lemmas on the state word\<close>

lemma mask24_lit: "(0xFFFFFF :: 64 word) = mask 24"
  by (simp add: mask_eq_exp_minus_1)

lemma flags_lit: "(0xFFFF000000000000 :: 64 word) = push_bit 48 (mask 16)"
  by (simp add: mask_eq_exp_minus_1)

lemma joined_or_close: "WT_LOG_SLOT_JOINED (s OR WT_LOG_SLOT_CLOSE) = WT_LOG_SLOT_JOINED s"
  by (simp add: WT_LOG_SLOT_JOINED_def WT_LOG_SLOT_CLOSE_def bit.conj_disj_distrib2)

lemma released_or_close: "WT_LOG_SLOT_RELEASED (s OR WT_LOG_SLOT_CLOSE) = WT_LOG_SLOT_RELEASED s"
proof -
  have "drop_bit 24 (s OR WT_LOG_SLOT_CLOSE) = drop_bit 24 s OR drop_bit 24 WT_LOG_SLOT_CLOSE"
    by (rule bit_word_eqI) (simp add: bit_simps)
  then show ?thesis
    by (simp add: WT_LOG_SLOT_RELEASED_def WT_LOG_SLOT_CLOSE_def bit.conj_disj_distrib2 drop_bit_eq_div)
qed

lemma closed_or_close: "WT_LOG_SLOT_CLOSED (s OR WT_LOG_SLOT_CLOSE)"
  unfolding WT_LOG_SLOT_CLOSED_def FLD64_ISSET_def
  by (simp add: WT_LOG_SLOT_CLOSE_def bit.conj_disj_distrib2)

lemma fits24_mask: "unat (x :: 64 word) < 2 ^ 24 \<longleftrightarrow> x AND mask 24 = x"
proof -
  have "x AND mask 24 = x \<longleftrightarrow> uint x < 2 ^ 24"
    by (rule mask_eq_iff)
  also have "\<dots> \<longleftrightarrow> int (unat x) < int (2 ^ 24)"
    by (simp only: uint_nat of_nat_power of_nat_numeral)
  also have "\<dots> \<longleftrightarrow> unat x < 2 ^ 24"
    by (rule of_nat_less_iff)
  finally show ?thesis by simp
qed

lemma low24_bits: "unat (x :: 64 word) < 2 ^ 24 \<Longrightarrow> 24 \<le> n \<Longrightarrow> \<not> bit x n"
  by (metis fits24_mask bit_and_iff bit_mask_iff not_le)

lemma top16_bits: "(f :: 64 word) AND 0xFFFF000000000000 = f \<Longrightarrow> n < 48 \<Longrightarrow> \<not> bit f n"
  unfolding flags_lit
  by (metis bit_and_iff bit_push_bit_iff not_le)

lemma joined_fits: "unat (WT_LOG_SLOT_JOINED s) < 2 ^ 24"
  unfolding fits24_mask WT_LOG_SLOT_JOINED_def mask24_lit by (simp add: and.assoc)

lemma released_fits: "unat (WT_LOG_SLOT_RELEASED s) < 2 ^ 24"
  unfolding fits24_mask WT_LOG_SLOT_RELEASED_def mask24_lit by (simp add: and.assoc)

lemma flags_top: "WT_LOG_SLOT_FLAGS s AND 0xFFFF000000000000 = WT_LOG_SLOT_FLAGS s"
  by (simp add: WT_LOG_SLOT_FLAGS_def and.assoc)

lemma scast_ucast_small:
  fixes x :: "64 word"
  assumes "unat x < 2 ^ 24"
  shows "(scast (ucast x :: 32 word) :: 64 word) = x"
proof (rule bit_word_eqI)
  fix n assume "n < LENGTH(64)"
  show "bit (scast (ucast x :: 32 word) :: 64 word) n = bit x n"
    using low24_bits [OF assms, of n] low24_bits [OF assms, of 31]
    by (cases "n < 24") (auto simp: bit_simps min_def split: if_splits)
qed

lemma sint_ucast_small:
  fixes x :: "64 word"
  assumes "unat x < 2 ^ 24"
  shows "sint (ucast x :: 32 word) = uint x"
proof (rule bit_eqI)
  fix n
  show "bit (sint (ucast x :: 32 word)) n = bit (uint x) n"
    using low24_bits [OF assms, of n] low24_bits [OF assms, of 31]
    by (cases "n < 24") (auto simp: bit_simps bit_sint_iff min_def split: if_splits)
qed

lemma unat_add_small:
  fixes j m :: "64 word"
  assumes "unat j + unat m < 2 ^ 24"
  shows "unat (j + m) = unat j + unat m"
proof -
  have "unat j + unat m < 2 ^ LENGTH(64)"
    using assms by (rule less_trans) simp
  then show ?thesis by (simp only: unat_add_lem)
qed

lemma ucast_add_small:
  fixes j m :: "64 word"
  assumes "unat j + unat m < 2 ^ 24"
  shows "(ucast j :: 32 word) + ucast m = ucast (j + m)"
proof -
  have h: "uint (j + m) = uint j + uint m"
    using unat_add_small [OF assms] by (simp only: uint_nat of_nat_add)
  have "(ucast (j + m) :: 32 word) = word_of_int (uint (j + m))"
    by (rule ucast_eq)
  also have "\<dots> = word_of_int (uint j) + word_of_int (uint m)"
    by (simp only: h wi_hom_add)
  also have "\<dots> = ucast j + ucast m"
    by (simp only: ucast_eq)
  finally show ?thesis by (rule sym)
qed

lemma join_rel_or:
  assumes j: "unat j < 2 ^ 24" and r: "unat r < 2 ^ 24"
    and f: "f AND 0xFFFF000000000000 = f"
  shows "WT_LOG_SLOT_JOIN_REL j r f = j OR push_bit 24 r OR f"
proof -
  note bj = low24_bits [OF j] and br = low24_bits [OF r] and bf = top16_bits [OF f]
  have 1: "j + push_bit 24 r = j OR push_bit 24 r"
  proof (rule disjunctive_add)
    fix n show "\<not> bit j n \<or> \<not> bit (push_bit 24 r) n"
      by (cases "24 \<le> n") (simp_all add: bj bit_push_bit_iff)
  qed
  have 2: "(j OR push_bit 24 r) + f = (j OR push_bit 24 r) OR f"
  proof (rule disjunctive_add)
    fix n show "\<not> bit (j OR push_bit 24 r) n \<or> \<not> bit f n"
      by (cases "n < 48") (simp_all add: bj br bf bit_or_iff bit_push_bit_iff)
  qed
  show ?thesis by (simp add: WT_LOG_SLOT_JOIN_REL_def 1 2 or.assoc)
qed

lemma join_rel_fields:
  assumes j: "unat j < 2 ^ 24" and r: "unat r < 2 ^ 24"
    and f: "f AND 0xFFFF000000000000 = f"
  shows "WT_LOG_SLOT_JOINED (WT_LOG_SLOT_JOIN_REL j r f) = j"
    and "WT_LOG_SLOT_RELEASED (WT_LOG_SLOT_JOIN_REL j r f) = r"
    and "WT_LOG_SLOT_FLAGS (WT_LOG_SLOT_JOIN_REL j r f) = f"
proof -
  note bj = low24_bits [OF j] and br = low24_bits [OF r] and bf = top16_bits [OF f]
  show "WT_LOG_SLOT_JOINED (WT_LOG_SLOT_JOIN_REL j r f) = j"
    unfolding join_rel_or [OF assms] WT_LOG_SLOT_JOINED_def mask24_lit
  proof (rule bit_word_eqI)
    fix n assume "n < LENGTH(64)"
    show "bit ((j OR push_bit 24 r OR f) AND mask 24) n = bit j n"
      by (cases "n < 24") (auto simp: bit_simps bj bf)
  qed
  show "WT_LOG_SLOT_RELEASED (WT_LOG_SLOT_JOIN_REL j r f) = r"
    unfolding join_rel_or [OF assms] WT_LOG_SLOT_RELEASED_def mask24_lit
  proof (rule bit_word_eqI)
    fix n assume "n < LENGTH(64)"
    show "bit (drop_bit 24 (j OR push_bit 24 r OR f) AND mask 24) n = bit r n"
      by (cases "n < 24") (auto simp: bit_simps bj br bf)
  qed
  show "WT_LOG_SLOT_FLAGS (WT_LOG_SLOT_JOIN_REL j r f) = f"
    unfolding join_rel_or [OF assms] WT_LOG_SLOT_FLAGS_def flags_lit
  proof (rule bit_word_eqI)
    fix n assume "n < LENGTH(64)"
    then show "bit ((j OR push_bit 24 r OR f) AND push_bit 48 (mask 16)) n = bit f n"
      using bf [unfolded flags_lit]
      by (cases "n < 48") (auto simp: bit_simps bj br)
  qed
qed

lemma join_rel_decompose:
  "WT_LOG_SLOT_JOIN_REL (WT_LOG_SLOT_JOINED s) (WT_LOG_SLOT_RELEASED s) (WT_LOG_SLOT_FLAGS s) = s"
proof -
  have "WT_LOG_SLOT_JOIN_REL (WT_LOG_SLOT_JOINED s) (WT_LOG_SLOT_RELEASED s) (WT_LOG_SLOT_FLAGS s)
     = WT_LOG_SLOT_JOINED s OR push_bit 24 (WT_LOG_SLOT_RELEASED s) OR WT_LOG_SLOT_FLAGS s"
    by (rule join_rel_or [OF joined_fits released_fits flags_top])
  also have "\<dots> = s"
    unfolding WT_LOG_SLOT_JOINED_def WT_LOG_SLOT_RELEASED_def WT_LOG_SLOT_FLAGS_def
      mask24_lit flags_lit
    by (rule bit_word_eqI) (auto simp: bit_simps)
  finally show ?thesis .
qed

text \<open>The new state word of a join.\<close>

lemma closed_iff_flags:
  "FLD64_ISSET s WT_LOG_SLOT_CLOSE \<longleftrightarrow> FLD64_ISSET (WT_LOG_SLOT_FLAGS s) WT_LOG_SLOT_CLOSE"
  by (simp add: FLD64_ISSET_def WT_LOG_SLOT_FLAGS_def WT_LOG_SLOT_CLOSE_def and.assoc)

lemma word_eq_of_unat_add:
  fixes r sz j :: "64 word"
  assumes "unat r + unat sz = unat j" and "unat j < 2 ^ 24"
  shows "r + sz = j"
proof -
  have "unat r + unat sz < 2 ^ 24" using assms by simp
  then have "unat (r + sz) = unat j"
    using assms(1) by (simp only: unat_add_small)
  then show ?thesis by (simp only: word_unat_eq_iff)
qed

section \<open>Lemmas on the functions\<close>

lemma slot_at_set_same [simp]:
  "i < length (slot_pool log) \<Longrightarrow> slot_at (slot_set log i s) i = s"
  by (simp add: slot_at_def slot_set_def)

lemma slot_set_fields [simp]:
  "alloc_lsn (slot_set log i s) = alloc_lsn log"
  "write_lsn (slot_set log i s) = write_lsn log"
  "active_slot (slot_set log i s) = active_slot log"
  "log_flags (slot_set log i s) = log_flags log"
  "length (slot_pool (slot_set log i s)) = length (slot_pool log)"
  by (simp_all add: slot_set_def)

lemma slot_close_retry_wins:
  assumes "\<not> WT_LOG_SLOT_CLOSED (slot_state (slot_at log i))"
    and "\<not> FLD64_ISSET (slot_state (slot_at log i)) WT_LOG_SLOT_RESERVED"
  shows "slot_close_retry log i rp =
     Some (0,
       (if WT_LOG_SLOT_DONE (slot_state (slot_at log i) OR WT_LOG_SLOT_CLOSE) \<and> rp \<noteq> None
        then Some 1 else rp),
       (slot_set log i ((slot_at log i)\<lparr>
           slot_state := slot_state (slot_at log i) OR WT_LOG_SLOT_CLOSE,
           slot_end_lsn := (slot_start_lsn (slot_at log i))\<lparr>lsn_offset :=
              lsn_offset (slot_start_lsn (slot_at log i))
                + WT_LOG_SLOT_JOINED (slot_state (slot_at log i))\<rparr>\<rparr>))
         \<lparr>alloc_lsn := (slot_start_lsn (slot_at log i))\<lparr>lsn_offset :=
              lsn_offset (slot_start_lsn (slot_at log i))
                + WT_LOG_SLOT_JOINED (slot_state (slot_at log i))\<rparr>\<rparr>,
       WT_ASSERT (lsn_file (write_lsn log) \<le> lsn_file (slot_start_lsn (slot_at log i)))
         Assert_alloc_file)"
  using assms
  by (subst slot_close_retry.simps) (simp add: Let_def wt_atomic_casiv64_def slot_set_def)

lemma slot_close_retry_noop:
  assumes "WT_LOG_SLOT_CLOSED (slot_state (slot_at log i))
         \<or> FLD64_ISSET (slot_state (slot_at log i)) WT_LOG_SLOT_RESERVED"
  shows "slot_close_retry log i rp = Some (0, rp, log, [])"
  using assms
  by (subst slot_close_retry.simps) (auto simp add: Let_def)

lemma close_wins_aux:
  assumes "i < length (slot_pool log)"
    and "\<not> WT_LOG_SLOT_CLOSED (slot_state (slot_at log i))"
    and "\<not> FLD64_ISSET (slot_state (slot_at log i)) WT_LOG_SLOT_RESERVED"
  shows "\<exists>log1 failed.
      wt_log_slot_close session log (Some i) releasep =
        Some (0,
          (case releasep of
             None \<Rightarrow> None
           | Some v \<Rightarrow> Some (if WT_LOG_SLOT_DONE (slot_state (slot_at log1 i)) then 1 else 0)),
          log1, failed)
    \<and> slot_state (slot_at log1 i) = slot_state (slot_at log i) OR WT_LOG_SLOT_CLOSE
    \<and> slot_end_lsn (slot_at log1 i) =
        (slot_start_lsn (slot_at log i))\<lparr>lsn_offset :=
           lsn_offset (slot_start_lsn (slot_at log i))
             + WT_LOG_SLOT_JOINED (slot_state (slot_at log i))\<rparr>
    \<and> alloc_lsn log1 = slot_end_lsn (slot_at log1 i)
    \<and> (WT_LOG_SLOT_DONE (slot_state (slot_at log1 i)) \<longleftrightarrow>
          FLD64_ISSET (slot_state (slot_at log1 i)) WT_LOG_SLOT_CLOSE
          \<and> WT_LOG_SLOT_JOINED (slot_state (slot_at log1 i))
              = WT_LOG_SLOT_RELEASED (slot_state (slot_at log1 i)))"
  using assms(1)
  by (cases releasep)
    (simp_all add: wt_log_slot_close_def slot_close_retry_wins [OF assms(2,3)]
      WT_LOG_SLOT_DONE_def WT_LOG_SLOT_CLOSED_def slot_at_def slot_set_def)

lemma join_new_state:
  assumes "unat (WT_LOG_SLOT_JOINED old) + unat mysize < 2 ^ 24"
  shows "WT_LOG_SLOT_JOIN_REL
           (scast ((ucast (WT_LOG_SLOT_JOINED old) :: 32 word) + ucast mysize))
           (scast (ucast (WT_LOG_SLOT_RELEASED old) :: 32 word))
           (WT_LOG_SLOT_FLAGS old)
       = WT_LOG_SLOT_JOIN_REL (WT_LOG_SLOT_JOINED old + mysize) (WT_LOG_SLOT_RELEASED old)
           (WT_LOG_SLOT_FLAGS old)"
proof -
  have "unat (WT_LOG_SLOT_JOINED old + mysize) < 2 ^ 24"
    using assms by (simp only: unat_add_small [OF assms])
  then show ?thesis
    by (simp only: ucast_add_small [OF assms] scast_ucast_small released_fits)
qed

lemma slot_join_loop_open:
  assumes "active_slot log = Some i"
    and "WT_LOG_SLOT_OPEN (slot_state (slot_at log i))"
  shows "slot_join_loop yld log mysize =
     Some (Inr
       (slot_set log i ((slot_at log i)\<lparr>slot_state :=
           WT_LOG_SLOT_JOIN_REL
             (scast ((ucast (WT_LOG_SLOT_JOINED (slot_state (slot_at log i))) :: 32 word)
                + ucast mysize))
             (scast (ucast (WT_LOG_SLOT_RELEASED (slot_state (slot_at log i))) :: 32 word))
             (WT_LOG_SLOT_FLAGS (slot_state (slot_at log i)))\<rparr>),
        i, ucast (WT_LOG_SLOT_JOINED (slot_state (slot_at log i)))))"
  using assms
  by (subst slot_join_loop.simps) (simp add: Let_def wt_atomic_casiv64_def)

lemma F_SET_active: "active_slot (F_SET_slot log i f) = active_slot log"
  by (simp add: F_SET_slot_def slot_set_def)

lemma slot_at_F_SET_state:
  "i < length (slot_pool log) \<Longrightarrow> slot_state (slot_at (F_SET_slot log i f) i) = slot_state (slot_at log i)"
  by (simp add: F_SET_slot_def slot_at_def slot_set_def)

lemma F_SET_length: "length (slot_pool (F_SET_slot log i f)) = length (slot_pool log)"
  by (simp add: F_SET_slot_def slot_set_def)

lemma slot_release_loop_eq:
  "slot_release_loop log i my_start =
     Some (if sint (slot_last_offset (slot_at log i)) < sint my_start
           then slot_set log i ((slot_at log i)\<lparr>slot_last_offset := my_start\<rparr>)
           else log)"
  by (subst slot_release_loop.simps) (simp add: Let_def wt_atomic_casiv64_def)

lemma release_add_fields:
  assumes fit: "unat (WT_LOG_SLOT_RELEASED s) + unat sz < 2 ^ 24"
  shows "wt_atomic_addiv64 s (WT_LOG_SLOT_JOIN_REL 0 sz 0) =
      WT_LOG_SLOT_JOIN_REL (WT_LOG_SLOT_JOINED s) (WT_LOG_SLOT_RELEASED s + sz)
        (WT_LOG_SLOT_FLAGS s)"
    and "WT_LOG_SLOT_JOINED (wt_atomic_addiv64 s (WT_LOG_SLOT_JOIN_REL 0 sz 0))
      = WT_LOG_SLOT_JOINED s"
    and "WT_LOG_SLOT_RELEASED (wt_atomic_addiv64 s (WT_LOG_SLOT_JOIN_REL 0 sz 0))
      = WT_LOG_SLOT_RELEASED s + sz"
    and "WT_LOG_SLOT_FLAGS (wt_atomic_addiv64 s (WT_LOG_SLOT_JOIN_REL 0 sz 0))
      = WT_LOG_SLOT_FLAGS s"
proof -
  let ?new = "WT_LOG_SLOT_JOIN_REL (WT_LOG_SLOT_JOINED s) (WT_LOG_SLOT_RELEASED s + sz)
        (WT_LOG_SLOT_FLAGS s)"
  have sum: "unat (WT_LOG_SLOT_RELEASED s + sz) < 2 ^ 24"
    using fit by (simp only: unat_add_small [OF fit])
  have "?new = WT_LOG_SLOT_JOIN_REL (WT_LOG_SLOT_JOINED s) (WT_LOG_SLOT_RELEASED s)
        (WT_LOG_SLOT_FLAGS s) + push_bit 24 sz"
    by (simp add: WT_LOG_SLOT_JOIN_REL_def push_bit_add)
  also have "\<dots> = s + push_bit 24 sz"
    by (simp only: join_rel_decompose)
  also have "\<dots> = wt_atomic_addiv64 s (WT_LOG_SLOT_JOIN_REL 0 sz 0)"
    by (simp add: wt_atomic_addiv64_def WT_LOG_SLOT_JOIN_REL_def)
  finally have "?new = wt_atomic_addiv64 s (WT_LOG_SLOT_JOIN_REL 0 sz 0)" .
  then show eq: "wt_atomic_addiv64 s (WT_LOG_SLOT_JOIN_REL 0 sz 0) = ?new"
    by (rule sym)
  show "WT_LOG_SLOT_JOINED (wt_atomic_addiv64 s (WT_LOG_SLOT_JOIN_REL 0 sz 0))
      = WT_LOG_SLOT_JOINED s"
    unfolding eq by (rule join_rel_fields [OF joined_fits sum flags_top])
  show "WT_LOG_SLOT_RELEASED (wt_atomic_addiv64 s (WT_LOG_SLOT_JOIN_REL 0 sz 0))
      = WT_LOG_SLOT_RELEASED s + sz"
    unfolding eq by (rule join_rel_fields [OF joined_fits sum flags_top])
  show "WT_LOG_SLOT_FLAGS (wt_atomic_addiv64 s (WT_LOG_SLOT_JOIN_REL 0 sz 0))
      = WT_LOG_SLOT_FLAGS s"
    unfolding eq by (rule join_rel_fields [OF joined_fits sum flags_top])
qed

lemma slot_release_result:
  assumes "myslot_slot myslot = Some i" and "i < length (slot_pool log)"
  shows "\<exists>log1.
      wt_log_slot_release log myslot sz =
        Some (Inr (wt_atomic_addiv64 (slot_state (slot_at log i)) (WT_LOG_SLOT_JOIN_REL 0 sz 0),
                   log1))
    \<and> slot_state (slot_at log1 i) =
        wt_atomic_addiv64 (slot_state (slot_at log i)) (WT_LOG_SLOT_JOIN_REL 0 sz 0)
    \<and> slot_last_offset (slot_at log1 i) =
        (if sint (slot_last_offset (slot_at log i))
              < sint (slot_start_offset (slot_at log i) + myslot_offset myslot)
         then slot_start_offset (slot_at log i) + myslot_offset myslot
         else slot_last_offset (slot_at log i))"
  using assms
  by (simp add: wt_log_slot_release_def slot_release_loop_eq Let_def slot_at_def slot_set_def)

lemma release_adds_aux:
  assumes ms: "myslot_slot myslot = Some i" and len: "i < length (slot_pool log)"
    and fit: "unat (WT_LOG_SLOT_RELEASED (slot_state (slot_at log i))) + unat sz < 2 ^ 24"
  shows "\<exists>log1 st.
      wt_log_slot_release log myslot sz = Some (Inr (st, log1))
    \<and> slot_state (slot_at log1 i) = st
    \<and> sint (slot_last_offset (slot_at log1 i)) =
        max (sint (slot_last_offset (slot_at log i)))
            (sint (slot_start_offset (slot_at log i) + myslot_offset myslot))
    \<and> sint (slot_last_offset (slot_at log i)) \<le> sint (slot_last_offset (slot_at log1 i))
    \<and> st = WT_LOG_SLOT_JOIN_REL (WT_LOG_SLOT_JOINED (slot_state (slot_at log i)))
              (WT_LOG_SLOT_RELEASED (slot_state (slot_at log i)) + sz)
              (WT_LOG_SLOT_FLAGS (slot_state (slot_at log i)))
    \<and> WT_LOG_SLOT_RELEASED st = WT_LOG_SLOT_RELEASED (slot_state (slot_at log i)) + sz
    \<and> unat (WT_LOG_SLOT_RELEASED st) =
        unat (WT_LOG_SLOT_RELEASED (slot_state (slot_at log i))) + unat sz
    \<and> WT_LOG_SLOT_JOINED st = WT_LOG_SLOT_JOINED (slot_state (slot_at log i))
    \<and> WT_LOG_SLOT_FLAGS st = WT_LOG_SLOT_FLAGS (slot_state (slot_at log i))"
proof -
  from slot_release_result [OF ms len, of sz] obtain log1 where
    r: "wt_log_slot_release log myslot sz =
        Some (Inr (wt_atomic_addiv64 (slot_state (slot_at log i)) (WT_LOG_SLOT_JOIN_REL 0 sz 0),
                   log1))"
    and s: "slot_state (slot_at log1 i) =
        wt_atomic_addiv64 (slot_state (slot_at log i)) (WT_LOG_SLOT_JOIN_REL 0 sz 0)"
    and l: "slot_last_offset (slot_at log1 i) =
        (if sint (slot_last_offset (slot_at log i))
              < sint (slot_start_offset (slot_at log i) + myslot_offset myslot)
         then slot_start_offset (slot_at log i) + myslot_offset myslot
         else slot_last_offset (slot_at log i))"
    by blast
  note f = release_add_fields [OF fit]
  show ?thesis
  proof (intro exI conjI)
    show "wt_log_slot_release log myslot sz =
        Some (Inr (wt_atomic_addiv64 (slot_state (slot_at log i)) (WT_LOG_SLOT_JOIN_REL 0 sz 0),
                   log1))"
      by (rule r)
  qed (simp_all only: s l f(2-4) unat_add_small [OF fit], simp_all add: f(1))
qed

lemma slot_new_failed:
  "wt_log_slot_new yld acq session log = Some (ret, log1, e) \<Longrightarrow>
     e = WT_ASSERT (WT_SESSION_LOCKED_SLOT \<in> session) Assert_locked_slot"
  by (auto simp: wt_log_slot_new_def Let_def split: if_splits)

lemma uint_less_of_word_less: "(a :: 64 word) < b \<Longrightarrow> uint a < uint b"
  by (simp add: word_less_def)

lemma join_open_aux:
  assumes act: "active_slot log = Some i"
    and len: "i < length (slot_pool log)"
    and opn: "WT_LOG_SLOT_OPEN (slot_state (slot_at log i))"
    and fit: "unat (WT_LOG_SLOT_JOINED (slot_state (slot_at log i))) + unat mysize < 2 ^ 24"
  shows "\<exists>log1 failed.
      wt_log_slot_join yld session log mysize flags myslotp =
        Some (Inr (0, log1,
          myslotp\<lparr>myslot_slot := Some i,
                  myslot_offset := WT_LOG_SLOT_JOINED (slot_state (slot_at log i)),
                  myslot_end_offset := WT_LOG_SLOT_JOINED (slot_state (slot_at log i)) + mysize\<rparr>,
          failed))
    \<and> slot_state (slot_at log1 i) =
        WT_LOG_SLOT_JOIN_REL (WT_LOG_SLOT_JOINED (slot_state (slot_at log i)) + mysize)
          (WT_LOG_SLOT_RELEASED (slot_state (slot_at log i)))
          (WT_LOG_SLOT_FLAGS (slot_state (slot_at log i)))
    \<and> WT_LOG_SLOT_JOINED (slot_state (slot_at log1 i)) =
        WT_LOG_SLOT_JOINED (slot_state (slot_at log i)) + mysize
    \<and> WT_LOG_SLOT_RELEASED (slot_state (slot_at log1 i)) =
        WT_LOG_SLOT_RELEASED (slot_state (slot_at log i))
    \<and> WT_LOG_SLOT_FLAGS (slot_state (slot_at log1 i)) =
        WT_LOG_SLOT_FLAGS (slot_state (slot_at log i))
    \<and> active_slot log1 = active_slot log
    \<and> length (slot_pool log1) = length (slot_pool log)"
proof -
  let ?old = "slot_state (slot_at log i)"
  let ?new = "WT_LOG_SLOT_JOIN_REL (WT_LOG_SLOT_JOINED ?old + mysize)
                (WT_LOG_SLOT_RELEASED ?old) (WT_LOG_SLOT_FLAGS ?old)"
  have sum: "unat (WT_LOG_SLOT_JOINED ?old + mysize) < 2 ^ 24"
    using fit by (simp only: unat_add_small [OF fit])
  have loop: "slot_join_loop yld log mysize =
      Some (Inr (slot_set log i ((slot_at log i)\<lparr>slot_state := ?new\<rparr>), i,
                 ucast (WT_LOG_SLOT_JOINED ?old)))"
    by (simp only: slot_join_loop_open [OF act opn] join_new_state [OF fit])
  have off: "(scast (ucast (WT_LOG_SLOT_JOINED ?old) :: 32 word) :: 64 word)
      = WT_LOG_SLOT_JOINED ?old"
    by (rule scast_ucast_small [OF joined_fits])
  have fields:
    "WT_LOG_SLOT_JOINED ?new = WT_LOG_SLOT_JOINED ?old + mysize"
    "WT_LOG_SLOT_RELEASED ?new = WT_LOG_SLOT_RELEASED ?old"
    "WT_LOG_SLOT_FLAGS ?new = WT_LOG_SLOT_FLAGS ?old"
    by (rule join_rel_fields [OF sum released_fits flags_top])+
  show ?thesis
    using act len
    by (simp add: wt_log_slot_join_def loop off fields slot_at_F_SET_state F_SET_length
        F_SET_active Let_def)
qed

lemma release_frame:
  assumes "wt_log_slot_release log myslot sz = Some (Inr (st, log1))"
  shows "active_slot log1 = active_slot log \<and> length (slot_pool log1) = length (slot_pool log)"
  using assms
  by (auto simp: wt_log_slot_release_def slot_release_loop_eq Let_def
      split: option.splits if_splits)

lemma activate_frame:
  "active_slot (wt_log_slot_activate log i) = active_slot log"
  "length (slot_pool (wt_log_slot_activate log i)) = length (slot_pool log)"
  "i < length (slot_pool log) \<Longrightarrow> slot_state (slot_at (wt_log_slot_activate log i) i) = 0"
  by (simp_all add: wt_log_slot_activate_def slot_set_def slot_at_def)

lemma fields_zero:
  "WT_LOG_SLOT_JOINED 0 = 0" "WT_LOG_SLOT_RELEASED 0 = 0" "WT_LOG_SLOT_OPEN 0"
  by (simp_all add: WT_LOG_SLOT_JOINED_def WT_LOG_SLOT_RELEASED_def WT_LOG_SLOT_OPEN_def
      WT_LOG_SLOT_FLAGS_def)

lemma slot_new_scan_first_free:
  assumes "k < length (slot_pool log)"
    and "slot_state (slot_at log k) = WT_LOG_SLOT_FREE"
    and "\<forall>j. i \<le> j \<and> j < k \<longrightarrow> slot_state (slot_at log j) \<noteq> WT_LOG_SLOT_FREE"
    and "i \<le> k"
  shows "slot_new_scan acq log i =
     (let r = acq (slot_buf_size log) k log
      in if fst r \<noteq> 0 then Some (fst r, snd r)
         else Some (0, (snd r)\<lparr>active_slot := Some k\<rparr>))"
  using assms
proof (induction acq log i rule: slot_new_scan.induct)
  case (1 acq log i)
  show ?case
  proof (cases "i = k")
    case True
    from True "1.prems" show ?thesis
      by (subst slot_new_scan.simps) auto
  next
    case False
    with "1.prems" have lt: "i < k" by simp
    with "1.prems" have nf: "slot_state (slot_at log i) \<noteq> WT_LOG_SLOT_FREE"
      and il: "i < length (slot_pool log)" by auto
    have "slot_new_scan acq log i = slot_new_scan acq log (i + 1)"
      using nf il by (subst slot_new_scan.simps) simp
    also have "\<dots> = (let r = acq (slot_buf_size log) k log
      in if fst r \<noteq> 0 then Some (fst r, snd r)
         else Some (0, (snd r)\<lparr>active_slot := Some k\<rparr>))"
      using "1.prems" lt nf il by (intro "1.IH") auto
    finally show ?thesis .
  qed
qed

lemma slot_new_loop_found:
  "slot_new_scan acq log 0 = Some r \<Longrightarrow> slot_new_loop yld acq log = Some r"
  by (subst slot_new_loop.simps) simp

section \<open>Lemmas on sequences of events\<close>

lemma span_pair: "span (a, b) = (unat a, unat b)"
  by (simp add: span_def)

lemma contiguous_le: "contiguous a xs b \<Longrightarrow> a \<le> b"
  by (induction xs arbitrary: a) fastforce+

lemma contiguous_union: "contiguous a xs b \<Longrightarrow> \<Union> (span_set ` set xs) = {a ..< b}"
proof (induction xs arbitrary: a)
  case Nil
  then show ?case by simp
next
  case (Cons p xs)
  obtain lo hi where p: "p = (lo, hi)" by (cases p)
  from Cons.prems p have c: "lo = a" "lo \<le> hi" "contiguous hi xs b" by simp_all
  from contiguous_le [OF c(3)] have "hi \<le> b" .
  with c Cons.IH [OF c(3)] p show ?case
    by (auto simp: span_set_def)
qed

lemma contiguous_after:
  "contiguous a xs b \<Longrightarrow> p \<in> set xs \<Longrightarrow> a \<le> fst p \<and> snd p \<le> b"
proof (induction xs arbitrary: a)
  case Nil
  then show ?case by simp
next
  case (Cons q xs)
  obtain lo hi where q: "q = (lo, hi)" by (cases q)
  from Cons.prems q have c: "lo = a" "lo \<le> hi" "contiguous hi xs b" by simp_all
  show ?case
  proof (cases "p = q")
    case True
    with c q contiguous_le [OF c(3)] show ?thesis by simp
  next
    case False
    with Cons.prems have "p \<in> set xs" by simp
    from Cons.IH [OF c(3) this] c show ?thesis by simp
  qed
qed

lemma contiguous_disjoint:
  "contiguous a xs b \<Longrightarrow> m < n \<Longrightarrow> n < length xs \<Longrightarrow> snd (xs ! m) \<le> fst (xs ! n)"
proof (induction xs arbitrary: a m n)
  case Nil
  then show ?case by simp
next
  case (Cons q xs)
  obtain lo hi where q: "q = (lo, hi)" by (cases q)
  from Cons.prems q have c: "lo = a" "lo \<le> hi" "contiguous hi xs b" by simp_all
  from Cons.prems obtain n' where n: "n = Suc n'" "n' < length xs"
    by (cases n) auto
  show ?case
  proof (cases m)
    case 0
    from contiguous_after [OF c(3), of "xs ! n'"] n have "hi \<le> fst (xs ! n')" by simp
    with 0 n q show ?thesis by simp
  next
    case (Suc m')
    with Cons.prems n have "m' < n'" by simp
    from Cons.IH [OF c(3) this n(2)] Suc n show ?thesis by simp
  qed
qed

lemma run_events_partition:
  assumes "active_slot log = Some i"
    and "i < length (slot_pool log)"
    and "WT_LOG_SLOT_OPEN (slot_state (slot_at log i))"
    and "unat (WT_LOG_SLOT_JOINED (slot_state (slot_at log i))) + sum_list (joined_sizes evs)
          < 2 ^ 24"
    and "unat (WT_LOG_SLOT_RELEASED (slot_state (slot_at log i))) + sum_list (released_sizes evs)
          < 2 ^ 24"
  shows "\<exists>log1 spans.
      run_events yld session log evs = Some (log1, spans)
    \<and> contiguous (unat (WT_LOG_SLOT_JOINED (slot_state (slot_at log i)))) (map span spans)
        (unat (WT_LOG_SLOT_JOINED (slot_state (slot_at log1 i))))
    \<and> map (\<lambda>p. snd p - fst p) (map span spans) = joined_sizes evs"
  using assms
proof (induction evs arbitrary: log)
  case Nil
  then show ?case by simp
next
  case (Cons ev evs)
  let ?old = "slot_state (slot_at log i)"
  show ?case
  proof (cases ev)
    case (Join mysize flags)
    have fit: "unat (WT_LOG_SLOT_JOINED ?old) + unat mysize < 2 ^ 24"
      using Cons.prems(4) Join by simp
    from join_open_aux [OF Cons.prems(1,2,3) fit, of yld session flags empty_myslot]
    obtain log1 failed where
      j: "wt_log_slot_join yld session log mysize flags empty_myslot =
        Some (Inr (0, log1,
          empty_myslot\<lparr>myslot_slot := Some i,
                  myslot_offset := WT_LOG_SLOT_JOINED ?old,
                  myslot_end_offset := WT_LOG_SLOT_JOINED ?old + mysize\<rparr>,
          failed))"
      and sj: "WT_LOG_SLOT_JOINED (slot_state (slot_at log1 i)) = WT_LOG_SLOT_JOINED ?old + mysize"
      and sr: "WT_LOG_SLOT_RELEASED (slot_state (slot_at log1 i)) = WT_LOG_SLOT_RELEASED ?old"
      and sf: "WT_LOG_SLOT_FLAGS (slot_state (slot_at log1 i)) = WT_LOG_SLOT_FLAGS ?old"
      and a1: "active_slot log1 = active_slot log"
      and l1: "length (slot_pool log1) = length (slot_pool log)"
      by blast
    have uj: "unat (WT_LOG_SLOT_JOINED (slot_state (slot_at log1 i)))
        = unat (WT_LOG_SLOT_JOINED ?old) + unat mysize"
      by (simp only: sj unat_add_small [OF fit])
    have p1: "active_slot log1 = Some i" "i < length (slot_pool log1)"
      "WT_LOG_SLOT_OPEN (slot_state (slot_at log1 i))"
      using Cons.prems(1,2,3) a1 l1 sf by (simp_all add: WT_LOG_SLOT_OPEN_def)
    have p4: "unat (WT_LOG_SLOT_JOINED (slot_state (slot_at log1 i)))
        + sum_list (joined_sizes evs) < 2 ^ 24"
      using Cons.prems(4) Join uj by simp
    have p5: "unat (WT_LOG_SLOT_RELEASED (slot_state (slot_at log1 i)))
        + sum_list (released_sizes evs) < 2 ^ 24"
      using Cons.prems(5) Join sr by simp
    from Cons.IH [OF p1 p4 p5] obtain log2 spans where
      r: "run_events yld session log1 evs = Some (log2, spans)"
      and c: "contiguous (unat (WT_LOG_SLOT_JOINED (slot_state (slot_at log1 i))))
          (map span spans) (unat (WT_LOG_SLOT_JOINED (slot_state (slot_at log2 i))))"
      and m: "map (\<lambda>p. snd p - fst p) (map span spans) = joined_sizes evs"
      by blast
    show ?thesis
      using Join j r c m uj
      by (simp add: span_pair unat_add_small [OF fit])
  next
    case (Release off sz)
    let ?ms = "\<lparr>myslot_slot = active_slot log, myslot_offset = off,
                 myslot_end_offset = off + sz\<rparr>"
    have fit: "unat (WT_LOG_SLOT_RELEASED ?old) + unat sz < 2 ^ 24"
      using Cons.prems(5) Release by simp
    have ms: "myslot_slot ?ms = Some i"
      using Cons.prems(1) by simp
    from release_adds_aux [OF ms Cons.prems(2) fit]
    obtain log1 st where
      rel: "wt_log_slot_release log ?ms sz = Some (Inr (st, log1))"
      and s: "slot_state (slot_at log1 i) = st"
      and ur: "unat (WT_LOG_SLOT_RELEASED st) = unat (WT_LOG_SLOT_RELEASED ?old) + unat sz"
      and sj: "WT_LOG_SLOT_JOINED st = WT_LOG_SLOT_JOINED ?old"
      and sf: "WT_LOG_SLOT_FLAGS st = WT_LOG_SLOT_FLAGS ?old"
      by blast
    from release_frame [OF rel] have a1: "active_slot log1 = active_slot log"
      and l1: "length (slot_pool log1) = length (slot_pool log)" by simp_all
    have p1: "active_slot log1 = Some i" "i < length (slot_pool log1)"
      "WT_LOG_SLOT_OPEN (slot_state (slot_at log1 i))"
      using Cons.prems(1,2,3) a1 l1 sf s by (simp_all add: WT_LOG_SLOT_OPEN_def)
    have p4: "unat (WT_LOG_SLOT_JOINED (slot_state (slot_at log1 i)))
        + sum_list (joined_sizes evs) < 2 ^ 24"
      using Cons.prems(4) Release sj s by simp
    have p5: "unat (WT_LOG_SLOT_RELEASED (slot_state (slot_at log1 i)))
        + sum_list (released_sizes evs) < 2 ^ 24"
      using Cons.prems(5) Release ur s by simp
    from Cons.IH [OF p1 p4 p5] obtain log2 spans where
      r: "run_events yld session log1 evs = Some (log2, spans)"
      and c: "contiguous (unat (WT_LOG_SLOT_JOINED (slot_state (slot_at log1 i))))
          (map span spans) (unat (WT_LOG_SLOT_JOINED (slot_state (slot_at log2 i))))"
      and m: "map (\<lambda>p. snd p - fst p) (map span spans) = joined_sizes evs"
      by blast
    show ?thesis
      using Release rel r c m sj s by simp
  qed
qed

section \<open>Runs on the example values\<close>

lemmas macro_defs = WT_LOG_SLOT_JOIN_REL_def WT_LOG_SLOT_JOINED_def WT_LOG_SLOT_RELEASED_def
  WT_LOG_SLOT_FLAGS_def WT_LOG_SLOT_OPEN_def WT_LOG_SLOT_MAXIMUM_def drop_bit_eq_div

lemma example_activate:
  "wt_log_slot_activate (example_log [WT_LOG_SLOT_FREE]) 0 = example_log [0]"
  by (simp add: wt_log_slot_activate_def example_log_def example_slot_def example_lsn_def
      slot_at_def slot_set_def)

lemma example_join:
  assumes "WT_LOG_SLOT_OPEN st" and "unat (WT_LOG_SLOT_JOINED st) + unat mysize < 2 ^ 24"
    and "mysize < WT_LOG_SLOT_MAXIMUM"
  shows "wt_log_slot_join id {} (example_log [st]) mysize {} empty_myslot =
     Some (Inr (0,
       example_log [WT_LOG_SLOT_JOIN_REL (WT_LOG_SLOT_JOINED st + mysize)
                      (WT_LOG_SLOT_RELEASED st) (WT_LOG_SLOT_FLAGS st)],
       \<lparr>myslot_slot = Some 0, myslot_offset = WT_LOG_SLOT_JOINED st,
        myslot_end_offset = WT_LOG_SLOT_JOINED st + mysize\<rparr>, []))"
proof -
  have act: "active_slot (example_log [st]) = Some 0"
    by (simp add: example_log_def)
  have s: "slot_state (slot_at (example_log [st]) 0) = st"
    by (simp add: example_log_def example_slot_def slot_at_def)
  have opn: "WT_LOG_SLOT_OPEN (slot_state (slot_at (example_log [st]) 0))"
    using assms(1) by (simp only: s)
  have fit: "unat (WT_LOG_SLOT_JOINED (slot_state (slot_at (example_log [st]) 0))) + unat mysize
      < 2 ^ 24"
    using assms(2) by (simp only: s)
  have loop: "slot_join_loop id (example_log [st]) mysize =
      Some (Inr (example_log [WT_LOG_SLOT_JOIN_REL (WT_LOG_SLOT_JOINED st + mysize)
                      (WT_LOG_SLOT_RELEASED st) (WT_LOG_SLOT_FLAGS st)], 0,
                 ucast (WT_LOG_SLOT_JOINED st)))"
    using slot_join_loop_open [OF act opn, of id mysize]
    by (simp add: s join_new_state [OF assms(2)])
      (simp add: example_log_def example_slot_def slot_at_def slot_set_def)
  have off: "(scast (ucast (WT_LOG_SLOT_JOINED st) :: 32 word) :: 64 word)
      = WT_LOG_SLOT_JOINED st"
    by (rule scast_ucast_small [OF joined_fits])
  show ?thesis
    using assms(3)
    by (simp add: wt_log_slot_join_def loop off act empty_myslot_def WT_ASSERT_def)
qed

lemma example_release:
  "wt_log_slot_release (example_log [st])
     \<lparr>myslot_slot = active_slot (example_log [st]), myslot_offset = 0,
      myslot_end_offset = 0 + sz\<rparr> sz
   = Some (Inr (st + push_bit 24 sz, example_log [st + push_bit 24 sz]))"
  by (simp add: wt_log_slot_release_def slot_release_loop_eq
      example_log_def example_slot_def example_lsn_def slot_at_def slot_set_def
      WT_LOG_SLOT_JOIN_REL_def wt_atomic_addiv64_def Let_def)

lemma example_states:
  "WT_LOG_SLOT_JOIN_REL (WT_LOG_SLOT_JOINED 0 + 10) (WT_LOG_SLOT_RELEASED 0)
     (WT_LOG_SLOT_FLAGS 0) = 10"
  "WT_LOG_SLOT_JOIN_REL (WT_LOG_SLOT_JOINED 10 + 20) (WT_LOG_SLOT_RELEASED 10)
     (WT_LOG_SLOT_FLAGS 10) = 30"
  "(30 :: 64 word) + push_bit 24 10 = 0xA00001E"
  "WT_LOG_SLOT_JOIN_REL (WT_LOG_SLOT_JOINED 0xA00001E + 30) (WT_LOG_SLOT_RELEASED 0xA00001E)
     (WT_LOG_SLOT_FLAGS 0xA00001E) = 0xA00003C"
  "WT_LOG_SLOT_JOINED 0 = 0" "WT_LOG_SLOT_JOINED 10 = 10" "WT_LOG_SLOT_JOINED 0xA00001E = 30"
  "WT_LOG_SLOT_JOINED 0xA00003C = 60"
  "WT_LOG_SLOT_OPEN 0" "WT_LOG_SLOT_OPEN 10" "WT_LOG_SLOT_OPEN 0xA00001E"
  by (simp_all add: WT_LOG_SLOT_JOIN_REL_def WT_LOG_SLOT_JOINED_def WT_LOG_SLOT_RELEASED_def
      WT_LOG_SLOT_FLAGS_def WT_LOG_SLOT_OPEN_def drop_bit_eq_div)

lemma example_run:
  "run_events id {} (wt_log_slot_activate (example_log [WT_LOG_SLOT_FREE]) 0)
        [Join 10 {}, Join 20 {}, Release 0 10, Join 30 {}]
   = Some (example_log [0xA00003C], [(0, 10), (10, 30), (30, 60)])"
proof -
  have j1: "wt_log_slot_join id {} (example_log [0]) 10 {} empty_myslot =
     Some (Inr (0, example_log [10],
       \<lparr>myslot_slot = Some 0, myslot_offset = 0, myslot_end_offset = 10\<rparr>, []))"
    using example_join [of 0 10] by (simp add: macro_defs)
  have j2: "wt_log_slot_join id {} (example_log [10]) 20 {} empty_myslot =
     Some (Inr (0, example_log [30],
       \<lparr>myslot_slot = Some 0, myslot_offset = 10, myslot_end_offset = 30\<rparr>, []))"
    using example_join [of 10 20] by (simp add: macro_defs)
  have r3: "wt_log_slot_release (example_log [30])
     \<lparr>myslot_slot = active_slot (example_log [30]), myslot_offset = 0,
      myslot_end_offset = 0 + 10\<rparr> 10
     = Some (Inr (0xA00001E, example_log [0xA00001E]))"
    by (simp only: example_release example_states)
  have j4: "wt_log_slot_join id {} (example_log [0xA00001E]) 30 {} empty_myslot =
     Some (Inr (0, example_log [0xA00003C],
       \<lparr>myslot_slot = Some 0, myslot_offset = 30, myslot_end_offset = 60\<rparr>, []))"
    using example_join [of "0xA00001E" 30] by (simp add: macro_defs)
  show ?thesis
    by (simp only: example_activate run_events.simps j1 j2 r3 j4 option.case sum.case
        prod.case wt_myslot.simps)
qed

lemma example_switch_returns:
  "\<exists>ret log2 fl.
     wt_log_slot_switch id example_acquire {WT_SESSION_LOCKED_SLOT}
       (example_log [0x300000A, WT_LOG_SLOT_FREE]) (Some 0) = Some (ret, log2, fl)"
proof -
  let ?log = "example_log [0x300000A, WT_LOG_SLOT_FREE]"
  have old: "slot_state (slot_at ?log 0) = 0x300000A"
    by (simp add: example_log_def example_slot_def slot_at_def)
  have nc: "\<not> WT_LOG_SLOT_CLOSED (slot_state (slot_at ?log 0))"
    and nr: "\<not> FLD64_ISSET (slot_state (slot_at ?log 0)) WT_LOG_SLOT_RESERVED"
    by (simp_all add: old WT_LOG_SLOT_CLOSED_def FLD64_ISSET_def WT_LOG_SLOT_CLOSE_def
        WT_LOG_SLOT_RESERVED_def)
  have len: "0 < length (slot_pool ?log)" by (simp add: example_log_def)
  from close_wins_aux [OF len nc nr, of "{WT_SESSION_LOCKED_SLOT}" "Some 0"]
  obtain log1 failed rp where
    c: "wt_log_slot_close {WT_SESSION_LOCKED_SLOT} ?log (Some 0) (Some 0)
          = Some (0, rp, log1, failed)"
    and s: "slot_state (slot_at log1 0) = slot_state (slot_at ?log 0) OR WT_LOG_SLOT_CLOSE"
    by blast
  have log1: "log1 = (slot_set ?log 0 ((slot_at ?log 0)\<lparr>
           slot_state := slot_state (slot_at ?log 0) OR WT_LOG_SLOT_CLOSE,
           slot_end_lsn := (slot_start_lsn (slot_at ?log 0))\<lparr>lsn_offset :=
              lsn_offset (slot_start_lsn (slot_at ?log 0))
                + WT_LOG_SLOT_JOINED (slot_state (slot_at ?log 0))\<rparr>\<rparr>))
         \<lparr>alloc_lsn := (slot_start_lsn (slot_at ?log 0))\<lparr>lsn_offset :=
              lsn_offset (slot_start_lsn (slot_at ?log 0))
                + WT_LOG_SLOT_JOINED (slot_state (slot_at ?log 0))\<rparr>\<rparr>"
    using c by (simp add: wt_log_slot_close_def slot_close_retry_wins [OF nc nr])
  have p: "1 < length (slot_pool log1)" "slot_state (slot_at log1 1) = WT_LOG_SLOT_FREE"
    "slot_state (slot_at log1 0) \<noteq> WT_LOG_SLOT_FREE"
    "active_slot log1 = Some 0" "WT_LOG_FORCE_CONSOLIDATE \<in> log_flags log1"
    "\<not> WT_LOG_SLOT_OPEN (slot_state (slot_at log1 0))"
    unfolding log1
    by (simp_all add: example_log_def example_slot_def slot_at_def slot_set_def
        WT_LOG_SLOT_FREE_def WT_LOG_SLOT_CLOSE_def WT_LOG_SLOT_OPEN_def WT_LOG_SLOT_FLAGS_def)
  have "slot_new_scan example_acquire log1 0 =
      Some (0, (wt_log_slot_activate log1 1)\<lparr>active_slot := Some 1\<rparr>)"
    using slot_new_scan_first_free [OF p(1,2), of 0 example_acquire] p(3)
    by (simp add: example_acquire_def less_Suc_eq)
  then have "slot_new_loop id example_acquire log1 =
      Some (0, (wt_log_slot_activate log1 1)\<lparr>active_slot := Some 1\<rparr>)"
    by (rule slot_new_loop_found)
  then have n: "wt_log_slot_new id example_acquire {WT_SESSION_LOCKED_SLOT} log1 =
      Some (0, (wt_log_slot_activate log1 1)\<lparr>active_slot := Some 1\<rparr>, [])"
    using p(4,5,6) by (simp add: wt_log_slot_new_def WT_ASSERT_def)
  have act: "active_slot ?log = Some 0" by (simp add: example_log_def)
  show ?thesis
    by (simp add: wt_log_slot_switch_def act c n Let_def)
qed

section \<open>The claims\<close>

text \<open>
  Claim C1. Start from a freshly activated active slot and let any sequence of joins and
  releases take effect on it, the sizes joined adding up to less than \<open>2 ^ 24\<close> (every
  running total fits the JOINED field) and so do the sizes released (a sequence of joins
  alone meets the second condition with the sum 0). Then every call
  returns, and the spans \<open>(offset, end_offset)\<close> handed out by the joins, in the order in
  which the joins took effect, are contiguous from 0 to the final JOINED count: each has
  the length of its join, together they cover exactly \<open>[0, JOINED)\<close>, and any two of them
  are disjoint.
\<close>
theorem slot_join_spans_partition:
  assumes act: "active_slot log = Some i"
    and len: "i < length (slot_pool log)"
    and joins: "sum_list (joined_sizes evs) < 2 ^ 24"
    and rels: "sum_list (released_sizes evs) < 2 ^ 24"
  shows "\<exists>log1 spans.
      run_events yld session (wt_log_slot_activate log i) evs = Some (log1, spans)
    \<and> contiguous 0 (map span spans) (unat (WT_LOG_SLOT_JOINED (slot_state (slot_at log1 i))))
    \<and> map (\<lambda>p. snd p - fst p) (map span spans) = joined_sizes evs
    \<and> \<Union> (span_set ` set (map span spans))
        = {0 ..< unat (WT_LOG_SLOT_JOINED (slot_state (slot_at log1 i)))}
    \<and> (\<forall>m n. m < n \<and> n < length spans \<longrightarrow>
          span_set (span (spans ! m)) \<inter> span_set (span (spans ! n)) = {})"
proof -
  let ?log0 = "wt_log_slot_activate log i"
  have st0: "slot_state (slot_at ?log0 i) = 0"
    by (rule activate_frame(3) [OF len])
  have "\<exists>log1 spans.
      run_events yld session ?log0 evs = Some (log1, spans)
    \<and> contiguous (unat (WT_LOG_SLOT_JOINED (slot_state (slot_at ?log0 i)))) (map span spans)
        (unat (WT_LOG_SLOT_JOINED (slot_state (slot_at log1 i))))
    \<and> map (\<lambda>p. snd p - fst p) (map span spans) = joined_sizes evs"
    using joins rels
    by (intro run_events_partition)
      (simp_all add: activate_frame act len st0 fields_zero)
  then obtain log1 spans where
    r: "run_events yld session ?log0 evs = Some (log1, spans)"
    and c: "contiguous 0 (map span spans)
        (unat (WT_LOG_SLOT_JOINED (slot_state (slot_at log1 i))))"
    and m: "map (\<lambda>p. snd p - fst p) (map span spans) = joined_sizes evs"
    by (auto simp: st0 fields_zero)
  have d: "span_set (span (spans ! m)) \<inter> span_set (span (spans ! n)) = {}"
    if "m < n" "n < length spans" for m n
  proof -
    from that have "snd (map span spans ! m) \<le> fst (map span spans ! n)"
      by (intro contiguous_disjoint [OF c]) simp_all
    with that show ?thesis
      by (auto simp: span_set_def)
  qed
  show ?thesis
    using r c m contiguous_union [OF c] d by auto
qed

theorem slot_join_spans_partition_witness:
  "run_events id {} (wt_log_slot_activate (example_log [WT_LOG_SLOT_FREE]) 0)
        [Join 10 {}, Join 20 {}, Release 0 10, Join 30 {}]
        = Some (example_log [0xA00003C], [(0, 10), (10, 30), (30, 60)])
    \<and> unat (WT_LOG_SLOT_JOINED (slot_state (slot_at (example_log [0xA00003C]) 0))) = 60
    \<and> contiguous 0 [(0, 10), (10, 30), (30, 60)] 60
    \<and> span_set (0, 10) \<union> span_set (10, 30) \<union> span_set (30, 60) = {0 ..< 60}
    \<and> span_set (0, 10) \<inter> span_set (10, 30) = {}
    \<and> span_set (0, 10) \<inter> span_set (30, 60) = {}
    \<and> span_set (10, 30) \<inter> span_set (30, 60) = {}"
proof -
  let ?evs = "[Join 10 {}, Join 20 {}, Release 0 10, Join 30 {}]"
  let ?log = "example_log [WT_LOG_SLOT_FREE]"
  have "\<exists>log1 spans.
      run_events id {} (wt_log_slot_activate ?log 0) ?evs = Some (log1, spans)
    \<and> contiguous 0 (map span spans) (unat (WT_LOG_SLOT_JOINED (slot_state (slot_at log1 0))))
    \<and> map (\<lambda>p. snd p - fst p) (map span spans) = joined_sizes ?evs
    \<and> \<Union> (span_set ` set (map span spans))
        = {0 ..< unat (WT_LOG_SLOT_JOINED (slot_state (slot_at log1 0)))}
    \<and> (\<forall>m n. m < n \<and> n < length spans \<longrightarrow>
          span_set (span (spans ! m)) \<inter> span_set (span (spans ! n)) = {})"
    by (rule slot_join_spans_partition) (simp_all add: example_log_def)
  then obtain log1 spans where
    r: "run_events id {} (wt_log_slot_activate ?log 0) ?evs = Some (log1, spans)"
    and c: "contiguous 0 (map span spans)
        (unat (WT_LOG_SLOT_JOINED (slot_state (slot_at log1 0))))"
    and u: "\<Union> (span_set ` set (map span spans))
        = {0 ..< unat (WT_LOG_SLOT_JOINED (slot_state (slot_at log1 0)))}"
    and d: "\<forall>m n. m < n \<and> n < length spans \<longrightarrow>
          span_set (span (spans ! m)) \<inter> span_set (span (spans ! n)) = {}"
    by (elim exE conjE) (rule that, assumption+)
  from r [unfolded example_run] have s: "spans = [(0, 10), (10, 30), (30, 60)]"
    and l: "log1 = example_log [0xA00003C]" by simp_all
  have j: "unat (WT_LOG_SLOT_JOINED (slot_state (slot_at (example_log [0xA00003C]) 0))) = 60"
    by (simp add: example_log_def example_slot_def slot_at_def WT_LOG_SLOT_JOINED_def)
  from d [rule_format, of 0 1] d [rule_format, of 0 2] d [rule_format, of 1 2] s
  have dd: "span_set (0, 10) \<inter> span_set (10, 30) = {}"
    "span_set (0, 10) \<inter> span_set (30, 60) = {}"
    "span_set (10, 30) \<inter> span_set (30, 60) = {}"
    by (simp_all add: span_pair)
  from c u have cu: "contiguous 0 [(0, 10), (10, 30), (30, 60)] 60"
    "span_set (0, 10) \<union> span_set (10, 30) \<union> span_set (30, 60) = {0 ..< 60}"
    unfolding s l j by (simp_all add: span_pair Un_assoc)
  show ?thesis
    by (intro conjI) (fact example_run j cu dd)+
qed

text \<open>
  Claim C2. A slot whose state word is neither CLOSED nor RESERVED is closed by
  \<^verbatim>\<open>__wt_log_slot_close\<close>: the call returns 0, the state word becomes the old word with
  the CLOSE flag, the slot's end LSN is its start LSN with the offset advanced by the old
  JOINED count, the log's \<open>alloc_lsn\<close> is that end LSN, and a caller that passed a place
  for \<open>release_now\<close> finds 1 there exactly when the new state is DONE (CLOSE set and
  JOINED equal to RELEASED), and 0 otherwise.
\<close>
theorem slot_close_wins:
  assumes "i < length (slot_pool log)"
    and "\<not> WT_LOG_SLOT_CLOSED (slot_state (slot_at log i))"
    and "\<not> FLD64_ISSET (slot_state (slot_at log i)) WT_LOG_SLOT_RESERVED"
  shows "\<exists>log1 failed.
      wt_log_slot_close session log (Some i) releasep =
        Some (0,
          (case releasep of
             None \<Rightarrow> None
           | Some v \<Rightarrow> Some (if WT_LOG_SLOT_DONE (slot_state (slot_at log1 i)) then 1 else 0)),
          log1, failed)
    \<and> slot_state (slot_at log1 i) = slot_state (slot_at log i) OR WT_LOG_SLOT_CLOSE
    \<and> slot_end_lsn (slot_at log1 i) =
        (slot_start_lsn (slot_at log i))\<lparr>lsn_offset :=
           lsn_offset (slot_start_lsn (slot_at log i))
             + WT_LOG_SLOT_JOINED (slot_state (slot_at log i))\<rparr>
    \<and> alloc_lsn log1 = slot_end_lsn (slot_at log1 i)
    \<and> (WT_LOG_SLOT_DONE (slot_state (slot_at log1 i)) \<longleftrightarrow>
          FLD64_ISSET (slot_state (slot_at log1 i)) WT_LOG_SLOT_CLOSE
          \<and> WT_LOG_SLOT_JOINED (slot_state (slot_at log1 i))
              = WT_LOG_SLOT_RELEASED (slot_state (slot_at log1 i)))"
  by (rule close_wins_aux [OF assms])

theorem slot_close_wins_witness:
  "\<exists>log1 failed.
      wt_log_slot_close {WT_SESSION_LOCKED_SLOT} (example_log [0x5000005]) (Some 0) (Some 7) =
        Some (0,
          (case Some (7::int) of
             None \<Rightarrow> None
           | Some v \<Rightarrow> Some (if WT_LOG_SLOT_DONE (slot_state (slot_at log1 0)) then 1 else 0)),
          log1, failed)
    \<and> slot_state (slot_at log1 0) =
        slot_state (slot_at (example_log [0x5000005]) 0) OR WT_LOG_SLOT_CLOSE
    \<and> slot_end_lsn (slot_at log1 0) =
        (slot_start_lsn (slot_at (example_log [0x5000005]) 0))\<lparr>lsn_offset :=
           lsn_offset (slot_start_lsn (slot_at (example_log [0x5000005]) 0))
             + WT_LOG_SLOT_JOINED (slot_state (slot_at (example_log [0x5000005]) 0))\<rparr>
    \<and> alloc_lsn log1 = slot_end_lsn (slot_at log1 0)
    \<and> (WT_LOG_SLOT_DONE (slot_state (slot_at log1 0)) \<longleftrightarrow>
          FLD64_ISSET (slot_state (slot_at log1 0)) WT_LOG_SLOT_CLOSE
          \<and> WT_LOG_SLOT_JOINED (slot_state (slot_at log1 0))
              = WT_LOG_SLOT_RELEASED (slot_state (slot_at log1 0)))"
  by (rule slot_close_wins)
    (simp_all add: example_log_def example_slot_def slot_at_def WT_LOG_SLOT_CLOSED_def
      FLD64_ISSET_def WT_LOG_SLOT_CLOSE_def WT_LOG_SLOT_RESERVED_def)

text \<open>
  Claim C3, as amended. A join of \<open>mysize\<close> bytes into an active slot whose state is OPEN,
  with \<open>mysize\<close> below the maximum and JOINED + \<open>mysize\<close> representable in the 24-bit
  JOINED field, returns 0; the state word becomes
  \<open>JOIN_REL (JOINED + mysize) RELEASED FLAGS\<close>, so RELEASED and the flags are unchanged;
  and the caller's handle names the slot, with \<open>offset\<close> the old JOINED count and
  \<open>end_offset\<close> = \<open>offset + mysize\<close>.
\<close>
theorem slot_join_open:
  assumes act: "active_slot log = Some i"
    and len: "i < length (slot_pool log)"
    and opn: "WT_LOG_SLOT_OPEN (slot_state (slot_at log i))"
    and mx: "mysize < WT_LOG_SLOT_MAXIMUM"
    and fit: "unat (WT_LOG_SLOT_JOINED (slot_state (slot_at log i))) + unat mysize < 2 ^ 24"
  shows "\<exists>log1 failed.
      wt_log_slot_join yld session log mysize flags myslotp =
        Some (Inr (0, log1,
          myslotp\<lparr>myslot_slot := Some i,
                  myslot_offset := WT_LOG_SLOT_JOINED (slot_state (slot_at log i)),
                  myslot_end_offset := WT_LOG_SLOT_JOINED (slot_state (slot_at log i)) + mysize\<rparr>,
          failed))
    \<and> slot_state (slot_at log1 i) =
        WT_LOG_SLOT_JOIN_REL (WT_LOG_SLOT_JOINED (slot_state (slot_at log i)) + mysize)
          (WT_LOG_SLOT_RELEASED (slot_state (slot_at log i)))
          (WT_LOG_SLOT_FLAGS (slot_state (slot_at log i)))
    \<and> WT_LOG_SLOT_JOINED (slot_state (slot_at log1 i)) =
        WT_LOG_SLOT_JOINED (slot_state (slot_at log i)) + mysize
    \<and> WT_LOG_SLOT_RELEASED (slot_state (slot_at log1 i)) =
        WT_LOG_SLOT_RELEASED (slot_state (slot_at log i))
    \<and> WT_LOG_SLOT_FLAGS (slot_state (slot_at log1 i)) =
        WT_LOG_SLOT_FLAGS (slot_state (slot_at log i))"
proof -
  let ?old = "slot_state (slot_at log i)"
  let ?new = "WT_LOG_SLOT_JOIN_REL (WT_LOG_SLOT_JOINED ?old + mysize)
                (WT_LOG_SLOT_RELEASED ?old) (WT_LOG_SLOT_FLAGS ?old)"
  have sum: "unat (WT_LOG_SLOT_JOINED ?old + mysize) < 2 ^ 24"
    using fit by (simp only: unat_add_small [OF fit])
  have loop: "slot_join_loop yld log mysize =
      Some (Inr (slot_set log i ((slot_at log i)\<lparr>slot_state := ?new\<rparr>), i,
                 ucast (WT_LOG_SLOT_JOINED ?old)))"
    by (simp only: slot_join_loop_open [OF act opn] join_new_state [OF fit])
  have off: "(scast (ucast (WT_LOG_SLOT_JOINED ?old) :: 32 word) :: 64 word)
      = WT_LOG_SLOT_JOINED ?old"
    by (rule scast_ucast_small [OF joined_fits])
  have fields:
    "WT_LOG_SLOT_JOINED ?new = WT_LOG_SLOT_JOINED ?old + mysize"
    "WT_LOG_SLOT_RELEASED ?new = WT_LOG_SLOT_RELEASED ?old"
    "WT_LOG_SLOT_FLAGS ?new = WT_LOG_SLOT_FLAGS ?old"
    by (rule join_rel_fields [OF sum released_fits flags_top])+
  show ?thesis
    using act len
    by (simp add: wt_log_slot_join_def loop off fields slot_at_F_SET_state F_SET_length Let_def)
qed

theorem slot_join_open_witness:
  "\<exists>log1 failed.
      wt_log_slot_join id {} (example_log [0x5000003]) 4 {WT_LOG_FSYNC} empty_myslot =
        Some (Inr (0, log1,
          empty_myslot\<lparr>myslot_slot := Some 0,
                  myslot_offset := WT_LOG_SLOT_JOINED (slot_state (slot_at (example_log [0x5000003]) 0)),
                  myslot_end_offset := WT_LOG_SLOT_JOINED (slot_state (slot_at (example_log [0x5000003]) 0)) + 4\<rparr>,
          failed))
    \<and> slot_state (slot_at log1 0) =
        WT_LOG_SLOT_JOIN_REL (WT_LOG_SLOT_JOINED (slot_state (slot_at (example_log [0x5000003]) 0)) + 4)
          (WT_LOG_SLOT_RELEASED (slot_state (slot_at (example_log [0x5000003]) 0)))
          (WT_LOG_SLOT_FLAGS (slot_state (slot_at (example_log [0x5000003]) 0)))
    \<and> WT_LOG_SLOT_JOINED (slot_state (slot_at log1 0)) =
        WT_LOG_SLOT_JOINED (slot_state (slot_at (example_log [0x5000003]) 0)) + 4
    \<and> WT_LOG_SLOT_RELEASED (slot_state (slot_at log1 0)) =
        WT_LOG_SLOT_RELEASED (slot_state (slot_at (example_log [0x5000003]) 0))
    \<and> WT_LOG_SLOT_FLAGS (slot_state (slot_at log1 0)) =
        WT_LOG_SLOT_FLAGS (slot_state (slot_at (example_log [0x5000003]) 0))"
  by (rule slot_join_open)
    (simp_all add: example_log_def example_slot_def slot_at_def WT_LOG_SLOT_OPEN_def
      WT_LOG_SLOT_FLAGS_def WT_LOG_SLOT_MAXIMUM_def WT_LOG_SLOT_JOINED_def)

text \<open>
  Claim C3 as it was stated asks only for an OPEN state and \<open>mysize\<close> below the maximum.
  That is not enough: with JOINED at \<open>0xFFFFFF\<close> a join of one byte carries out of the
  JOINED field. The call returns 0 and the new state word is \<open>0x1000000\<close>, whose JOINED
  is not the old JOINED plus one and whose RELEASED is not the old RELEASED.
\<close>
theorem slot_join_overflow_counterexample:
  "WT_LOG_SLOT_OPEN (slot_state (slot_at (example_log [0xFFFFFF]) 0))
   \<and> (1 :: 64 word) < WT_LOG_SLOT_MAXIMUM
   \<and> wt_log_slot_join id {} (example_log [0xFFFFFF]) 1 {} empty_myslot =
        Some (Inr (0, example_log [0x1000000],
          \<lparr>myslot_slot = Some 0, myslot_offset = 0xFFFFFF, myslot_end_offset = 0x1000000\<rparr>, []))
   \<and> WT_LOG_SLOT_JOINED (slot_state (slot_at (example_log [0x1000000]) 0))
        \<noteq> WT_LOG_SLOT_JOINED (slot_state (slot_at (example_log [0xFFFFFF]) 0)) + 1
   \<and> WT_LOG_SLOT_RELEASED (slot_state (slot_at (example_log [0x1000000]) 0))
        \<noteq> WT_LOG_SLOT_RELEASED (slot_state (slot_at (example_log [0xFFFFFF]) 0))"
  by (simp add: wt_log_slot_join_def slot_join_loop.simps example_log_def example_slot_def
      empty_myslot_def slot_at_def slot_set_def WT_LOG_SLOT_OPEN_def WT_LOG_SLOT_FLAGS_def
      WT_LOG_SLOT_MAXIMUM_def WT_LOG_SLOT_JOINED_def WT_LOG_SLOT_RELEASED_def
      WT_LOG_SLOT_JOIN_REL_def wt_atomic_casiv64_def WT_ASSERT_def drop_bit_eq_div Let_def)

text \<open>
  Claim C4. Every \<^verbatim>\<open>__wt_log_slot_release\<close> on a slot of the pool returns; afterwards the
  slot's \<open>last_offset\<close> is the larger (as signed 64-bit values) of its previous value and
  \<open>start_offset + myslot.offset\<close>, so it never decreases; the value returned is the new
  state word, the previous one plus \<open>JOIN_REL 0 size 0\<close>; and when RELEASED + \<open>size\<close> fits
  the RELEASED field, that word is the previous one with \<open>size\<close> added to RELEASED and
  with JOINED and the flags unchanged.
\<close>
theorem slot_release_adds:
  assumes ms: "myslot_slot myslot = Some i" and len: "i < length (slot_pool log)"
  shows "\<exists>log1 st.
      wt_log_slot_release log myslot sz = Some (Inr (st, log1))
    \<and> slot_state (slot_at log1 i) = st
    \<and> st = wt_atomic_addiv64 (slot_state (slot_at log i)) (WT_LOG_SLOT_JOIN_REL 0 sz 0)
    \<and> sint (slot_last_offset (slot_at log1 i)) =
        max (sint (slot_last_offset (slot_at log i)))
            (sint (slot_start_offset (slot_at log i) + myslot_offset myslot))
    \<and> sint (slot_last_offset (slot_at log i)) \<le> sint (slot_last_offset (slot_at log1 i))
    \<and> (unat (WT_LOG_SLOT_RELEASED (slot_state (slot_at log i))) + unat sz < 2 ^ 24 \<longrightarrow>
          st = WT_LOG_SLOT_JOIN_REL (WT_LOG_SLOT_JOINED (slot_state (slot_at log i)))
                 (WT_LOG_SLOT_RELEASED (slot_state (slot_at log i)) + sz)
                 (WT_LOG_SLOT_FLAGS (slot_state (slot_at log i)))
        \<and> WT_LOG_SLOT_RELEASED st = WT_LOG_SLOT_RELEASED (slot_state (slot_at log i)) + sz
        \<and> unat (WT_LOG_SLOT_RELEASED st) =
            unat (WT_LOG_SLOT_RELEASED (slot_state (slot_at log i))) + unat sz
        \<and> WT_LOG_SLOT_JOINED st = WT_LOG_SLOT_JOINED (slot_state (slot_at log i))
        \<and> WT_LOG_SLOT_FLAGS st = WT_LOG_SLOT_FLAGS (slot_state (slot_at log i)))"
proof -
  let ?st = "wt_atomic_addiv64 (slot_state (slot_at log i)) (WT_LOG_SLOT_JOIN_REL 0 sz 0)"
  from slot_release_result [OF ms len, of sz] obtain log1 where
    r: "wt_log_slot_release log myslot sz = Some (Inr (?st, log1))"
    and s: "slot_state (slot_at log1 i) = ?st"
    and l: "slot_last_offset (slot_at log1 i) =
        (if sint (slot_last_offset (slot_at log i))
              < sint (slot_start_offset (slot_at log i) + myslot_offset myslot)
         then slot_start_offset (slot_at log i) + myslot_offset myslot
         else slot_last_offset (slot_at log i))"
    by blast
  have m: "sint (slot_last_offset (slot_at log1 i)) =
        max (sint (slot_last_offset (slot_at log i)))
            (sint (slot_start_offset (slot_at log i) + myslot_offset myslot))"
    "sint (slot_last_offset (slot_at log i)) \<le> sint (slot_last_offset (slot_at log1 i))"
    by (simp_all add: l)
  have f: "?st = WT_LOG_SLOT_JOIN_REL (WT_LOG_SLOT_JOINED (slot_state (slot_at log i)))
                 (WT_LOG_SLOT_RELEASED (slot_state (slot_at log i)) + sz)
                 (WT_LOG_SLOT_FLAGS (slot_state (slot_at log i)))
        \<and> WT_LOG_SLOT_RELEASED ?st = WT_LOG_SLOT_RELEASED (slot_state (slot_at log i)) + sz
        \<and> unat (WT_LOG_SLOT_RELEASED ?st) =
            unat (WT_LOG_SLOT_RELEASED (slot_state (slot_at log i))) + unat sz
        \<and> WT_LOG_SLOT_JOINED ?st = WT_LOG_SLOT_JOINED (slot_state (slot_at log i))
        \<and> WT_LOG_SLOT_FLAGS ?st = WT_LOG_SLOT_FLAGS (slot_state (slot_at log i))"
    if fit: "unat (WT_LOG_SLOT_RELEASED (slot_state (slot_at log i))) + unat sz < 2 ^ 24"
  proof -
    note a = release_add_fields [OF fit]
    have "unat (WT_LOG_SLOT_RELEASED ?st) =
            unat (WT_LOG_SLOT_RELEASED (slot_state (slot_at log i))) + unat sz"
      by (simp only: a(3) unat_add_small [OF fit])
    with a show ?thesis by (intro conjI)
  qed
  show ?thesis
    using r s m f by blast
qed

theorem slot_release_adds_witness:
  "wt_log_slot_release (example_log [0x300000A])
        \<lparr>myslot_slot = Some 0, myslot_offset = 4, myslot_end_offset = 9\<rparr> 5
        = Some (Inr (0x800000A,
            slot_set (example_log [0x800000A]) 0
              ((example_slot 0x800000A)\<lparr>slot_last_offset := 132\<rparr>)))
    \<and> WT_LOG_SLOT_RELEASED 0x300000A = 3
    \<and> WT_LOG_SLOT_RELEASED 0x800000A = 8
    \<and> WT_LOG_SLOT_JOINED 0x800000A = WT_LOG_SLOT_JOINED 0x300000A
    \<and> WT_LOG_SLOT_FLAGS 0x800000A = WT_LOG_SLOT_FLAGS 0x300000A"
proof -
  let ?log = "example_log [0x300000A]"
  let ?ms = "\<lparr>myslot_slot = Some 0, myslot_offset = 4, myslot_end_offset = 9\<rparr>"
  have old: "slot_state (slot_at ?log 0) = 0x300000A"
    by (simp add: example_log_def example_slot_def slot_at_def)
  have f: "WT_LOG_SLOT_RELEASED 0x300000A = 3"
    by (simp add: macro_defs)
  have e: "wt_log_slot_release ?log ?ms 5
        = Some (Inr (0x800000A,
            slot_set (example_log [0x800000A]) 0
              ((example_slot 0x800000A)\<lparr>slot_last_offset := 132\<rparr>)))"
    by (simp add: wt_log_slot_release_def slot_release_loop_eq
      example_log_def example_slot_def example_lsn_def slot_at_def slot_set_def
      WT_LOG_SLOT_JOIN_REL_def wt_atomic_addiv64_def Let_def)
  have fit: "unat (WT_LOG_SLOT_RELEASED (slot_state (slot_at ?log 0))) + unat (5 :: 64 word)
      < 2 ^ 24"
    by (simp add: old f)
  from slot_release_adds [where myslot = ?ms and i = 0 and log = ?log and sz = 5]
  obtain log1 st where
    r: "wt_log_slot_release ?log ?ms 5 = Some (Inr (st, log1))"
    and c: "unat (WT_LOG_SLOT_RELEASED (slot_state (slot_at ?log 0))) + unat (5 :: 64 word)
              < 2 ^ 24 \<longrightarrow>
          st = WT_LOG_SLOT_JOIN_REL (WT_LOG_SLOT_JOINED (slot_state (slot_at ?log 0)))
                 (WT_LOG_SLOT_RELEASED (slot_state (slot_at ?log 0)) + 5)
                 (WT_LOG_SLOT_FLAGS (slot_state (slot_at ?log 0)))
        \<and> WT_LOG_SLOT_RELEASED st = WT_LOG_SLOT_RELEASED (slot_state (slot_at ?log 0)) + 5
        \<and> unat (WT_LOG_SLOT_RELEASED st) =
            unat (WT_LOG_SLOT_RELEASED (slot_state (slot_at ?log 0))) + unat (5 :: 64 word)
        \<and> WT_LOG_SLOT_JOINED st = WT_LOG_SLOT_JOINED (slot_state (slot_at ?log 0))
        \<and> WT_LOG_SLOT_FLAGS st = WT_LOG_SLOT_FLAGS (slot_state (slot_at ?log 0))"
    by (auto simp: example_log_def)
  from r [unfolded e] have st: "st = 0x800000A" by simp
  from c [rule_format, OF fit] have
    "WT_LOG_SLOT_RELEASED 0x800000A = 8"
    "WT_LOG_SLOT_JOINED 0x800000A = WT_LOG_SLOT_JOINED 0x300000A"
    "WT_LOG_SLOT_FLAGS 0x800000A = WT_LOG_SLOT_FLAGS 0x300000A"
    unfolding st old f by simp_all
  with e f show ?thesis by (intro conjI)
qed

text \<open>
  Claim C5. On a null slot, a slot whose CLOSE flag is set, or a slot whose RESERVED flag
  is set, \<^verbatim>\<open>__wt_log_slot_close\<close> returns 0, reports \<open>release_now\<close> = 0, and returns the
  log as it was: the state word and \<open>alloc_lsn\<close> are untouched.
\<close>
theorem slot_close_noop:
  assumes "case slot of
             None \<Rightarrow> True
           | Some i \<Rightarrow> FLD64_ISSET (slot_state (slot_at log i)) WT_LOG_SLOT_CLOSE
                      \<or> FLD64_ISSET (slot_state (slot_at log i)) WT_LOG_SLOT_RESERVED"
  shows "wt_log_slot_close session log slot releasep =
      Some (0, (case releasep of None \<Rightarrow> None | Some v \<Rightarrow> Some 0), log,
            WT_ASSERT (WT_SESSION_LOCKED_SLOT \<in> session) Assert_locked_slot)"
proof (cases slot)
  case None
  then show ?thesis
    by (cases releasep) (simp_all add: wt_log_slot_close_def)
next
  case (Some i)
  with assms have "WT_LOG_SLOT_CLOSED (slot_state (slot_at log i))
         \<or> FLD64_ISSET (slot_state (slot_at log i)) WT_LOG_SLOT_RESERVED"
    by (simp add: WT_LOG_SLOT_CLOSED_def)
  then show ?thesis
    using Some
    by (cases releasep) (simp_all add: wt_log_slot_close_def slot_close_retry_noop)
qed

theorem slot_close_noop_witness:
  "wt_log_slot_close {WT_SESSION_LOCKED_SLOT} (example_log [0x4000000000000005]) (Some 0) (Some 7) =
      Some (0, Some 0, example_log [0x4000000000000005], [])
   \<and> wt_log_slot_close {WT_SESSION_LOCKED_SLOT} (example_log [WT_LOG_SLOT_FREE]) (Some 0) (Some 7) =
      Some (0, Some 0, example_log [WT_LOG_SLOT_FREE], [])
   \<and> wt_log_slot_close {WT_SESSION_LOCKED_SLOT} (example_log [0]) None (Some 7) =
      Some (0, Some 0, example_log [0], [])"
  using slot_close_noop [where slot = "Some 0" and log = "example_log [0x4000000000000005]"
      and session = "{WT_SESSION_LOCKED_SLOT}" and releasep = "Some 7"]
    slot_close_noop [where slot = "Some 0" and log = "example_log [WT_LOG_SLOT_FREE]"
      and session = "{WT_SESSION_LOCKED_SLOT}" and releasep = "Some 7"]
    slot_close_noop [where slot = None and log = "example_log [0]"
      and session = "{WT_SESSION_LOCKED_SLOT}" and releasep = "Some 7"]
  by (simp add: example_log_def example_slot_def slot_at_def FLD64_ISSET_def
      WT_LOG_SLOT_CLOSE_def WT_LOG_SLOT_RESERVED_def WT_LOG_SLOT_FREE_def WT_ASSERT_def)

text \<open>
  Claim C6. When \<^verbatim>\<open>__wt_log_slot_switch\<close> is called on the active slot while RELEASED is
  below JOINED and the slot is neither CLOSED nor RESERVED, the close inside it reports
  \<open>release_now\<close> = 0, JOINED is still above RELEASED after the close, and neither of the
  two assertions that follow the close is among the failed assertions of the call.
\<close>
theorem slot_switch_release_zero:
  assumes act: "active_slot log = Some i"
    and len: "i < length (slot_pool log)"
    and pending: "WT_LOG_SLOT_RELEASED (slot_state (slot_at log i))
                    < WT_LOG_SLOT_JOINED (slot_state (slot_at log i))"
    and nc: "\<not> WT_LOG_SLOT_CLOSED (slot_state (slot_at log i))"
    and nr: "\<not> FLD64_ISSET (slot_state (slot_at log i)) WT_LOG_SLOT_RESERVED"
  shows "\<exists>log1 failed.
      wt_log_slot_close session log (Some i) (Some 0) = Some (0, Some 0, log1, failed)
    \<and> sint (ucast (WT_LOG_SLOT_RELEASED (slot_state (slot_at log1 i))) :: 32 word)
        < sint (ucast (WT_LOG_SLOT_JOINED (slot_state (slot_at log1 i))) :: 32 word)
    \<and> (\<forall>ret log2 fl.
          wt_log_slot_switch yld acq session log (Some i) = Some (ret, log2, fl)
          \<longrightarrow> Assert_release_zero \<notin> set fl \<and> Assert_joined_gt_released \<notin> set fl)"
proof -
  let ?old = "slot_state (slot_at log i)"
  have nd: "\<not> WT_LOG_SLOT_DONE (?old OR WT_LOG_SLOT_CLOSE)"
    using pending by (auto simp: WT_LOG_SLOT_DONE_def joined_or_close released_or_close)
  from close_wins_aux [OF len nc nr, of session "Some 0"] obtain log1 failed where
    c: "wt_log_slot_close session log (Some i) (Some 0) = Some (0, Some 0, log1, failed)"
    and s: "slot_state (slot_at log1 i) = ?old OR WT_LOG_SLOT_CLOSE"
    using nd by auto
  have fl: "set failed \<subseteq> {Assert_locked_slot, Assert_alloc_file}"
    using c
    by (auto simp: wt_log_slot_close_def slot_close_retry_wins [OF nc nr] WT_ASSERT_def
        split: if_splits)
  have jr: "sint (ucast (WT_LOG_SLOT_RELEASED (slot_state (slot_at log1 i))) :: 32 word)
        < sint (ucast (WT_LOG_SLOT_JOINED (slot_state (slot_at log1 i))) :: 32 word)"
    using uint_less_of_word_less [OF pending]
    by (simp only: s joined_or_close released_or_close
        sint_ucast_small [OF joined_fits] sint_ucast_small [OF released_fits])
  have sw: "Assert_release_zero \<notin> set fl' \<and> Assert_joined_gt_released \<notin> set fl'"
    if "wt_log_slot_switch yld acq session log (Some i) = Some (ret, log2, fl')"
    for ret log2 fl'
    using that fl jr act
    by (auto simp: wt_log_slot_switch_def c Let_def WT_ASSERT_def
        split: option.splits if_splits dest!: slot_new_failed)
  show ?thesis
    using c jr sw by blast
qed

theorem slot_switch_release_zero_witness:
  "\<exists>ret log2 fl.
     wt_log_slot_switch id example_acquire {WT_SESSION_LOCKED_SLOT}
       (example_log [0x300000A, WT_LOG_SLOT_FREE]) (Some 0) = Some (ret, log2, fl)
     \<and> Assert_release_zero \<notin> set fl \<and> Assert_joined_gt_released \<notin> set fl"
proof -
  let ?log = "example_log [0x300000A, WT_LOG_SLOT_FREE]"
  have old: "slot_state (slot_at ?log 0) = 0x300000A"
    by (simp add: example_log_def example_slot_def slot_at_def)
  have "\<exists>log1 failed.
      wt_log_slot_close {WT_SESSION_LOCKED_SLOT} ?log (Some 0) (Some 0)
        = Some (0, Some 0, log1, failed)
    \<and> sint (ucast (WT_LOG_SLOT_RELEASED (slot_state (slot_at log1 0))) :: 32 word)
        < sint (ucast (WT_LOG_SLOT_JOINED (slot_state (slot_at log1 0))) :: 32 word)
    \<and> (\<forall>ret log2 fl.
          wt_log_slot_switch id example_acquire {WT_SESSION_LOCKED_SLOT} ?log (Some 0)
            = Some (ret, log2, fl)
          \<longrightarrow> Assert_release_zero \<notin> set fl \<and> Assert_joined_gt_released \<notin> set fl)"
    by (rule slot_switch_release_zero)
      (simp_all add: old macro_defs WT_LOG_SLOT_CLOSED_def FLD64_ISSET_def WT_LOG_SLOT_CLOSE_def
        WT_LOG_SLOT_RESERVED_def, simp_all add: example_log_def)
  then have a: "\<forall>ret log2 fl.
          wt_log_slot_switch id example_acquire {WT_SESSION_LOCKED_SLOT} ?log (Some 0)
            = Some (ret, log2, fl)
          \<longrightarrow> Assert_release_zero \<notin> set fl \<and> Assert_joined_gt_released \<notin> set fl"
    by (elim exE conjE)
  from example_switch_returns obtain ret log2 fl where
    r: "wt_log_slot_switch id example_acquire {WT_SESSION_LOCKED_SLOT} ?log (Some 0)
          = Some (ret, log2, fl)"
    by (elim exE)
  from a [rule_format, OF r] r show ?thesis
    by (intro exI conjI) (assumption | simp)+
qed

text \<open>
  Claim C7 does not hold of the code: \<^verbatim>\<open>__wt_log_slot_destroy\<close> returns from inside its loop
  as soon as a write fails. With a write that fails on the first slot of a pool of two,
  the call returns the error with the log as it was: the error is not stored in the
  slot, neither buffer is freed, and the 7 residual bytes of the second slot, whose
  write would have succeeded, are never written.
\<close>
theorem slot_destroy_stops_at_error:
  "wt_log_slot_destroy failing_write destroy_example_log = (5, destroy_example_log, [])
   \<and> slot_buf (slot_at destroy_example_log 0) = Some []
   \<and> slot_buf (slot_at destroy_example_log 1) = Some []
   \<and> slot_error (slot_at destroy_example_log 0) = 0
   \<and> \<not> FLD64_ISSET (slot_state (slot_at destroy_example_log 1)) WT_LOG_SLOT_RESERVED
   \<and> WT_LOG_SLOT_RELEASED (slot_state (slot_at destroy_example_log 1))
        - slot_unbuffered (slot_at destroy_example_log 1) = 7
   \<and> failing_write (slot_fh (slot_at destroy_example_log 1),
        slot_start_offset (slot_at destroy_example_log 1), 7,
        slot_buf (slot_at destroy_example_log 1)) = 0"
  by (simp add: wt_log_slot_destroy_def slot_destroy_loop.simps destroy_example_log_def
      example_log_def example_slot_def example_lsn_def slot_at_def slot_set_def
      failing_write_def FLD64_ISSET_def WT_LOG_SLOT_RESERVED_def WT_LOG_SLOT_RELEASED_def
      drop_bit_eq_div Let_def)

text \<open>
  Claim C8. When consolidation is forced, the active slot is not open, the first free
  slot of the pool is \<open>k\<close>, and the acquire for it returns the error \<open>e\<close> and the log
  \<open>log1\<close>, \<^verbatim>\<open>__wt_log_slot_new\<close> returns \<open>e\<close> with exactly \<open>log1\<close>: it writes nothing
  itself. So with an acquire that fails without touching the active slot or the slot's
  state word, the active slot is the one before the call and the slot is still FREE.
\<close>
theorem slot_new_acquire_error:
  assumes fc: "WT_LOG_FORCE_CONSOLIDATE \<in> log_flags log"
    and na: "\<not> (case active_slot log of
                   None \<Rightarrow> False
                 | Some a \<Rightarrow> WT_LOG_SLOT_OPEN (slot_state (slot_at log a)))"
    and k: "k < length (slot_pool log)"
    and free: "slot_state (slot_at log k) = WT_LOG_SLOT_FREE"
    and first: "\<forall>j. j < k \<longrightarrow> slot_state (slot_at log j) \<noteq> WT_LOG_SLOT_FREE"
    and err: "acq (slot_buf_size log) k log = (e, log1)" "e \<noteq> 0"
    and kept: "active_slot log1 = active_slot log"
              "slot_state (slot_at log1 k) = slot_state (slot_at log k)"
  shows "\<exists>log2 failed.
      wt_log_slot_new yld acq session log = Some (e, log2, failed)
    \<and> log2 = log1
    \<and> active_slot log2 = active_slot log
    \<and> slot_state (slot_at log2 k) = WT_LOG_SLOT_FREE"
proof -
  have "slot_new_scan acq log 0 = Some (e, log1)"
    using slot_new_scan_first_free [OF k free, of 0 acq] first err by simp
  then have "slot_new_loop yld acq log = Some (e, log1)"
    by (rule slot_new_loop_found)
  then show ?thesis
    using fc na kept free by (simp add: wt_log_slot_new_def)
qed

theorem slot_new_acquire_error_witness:
  "\<exists>log2 failed.
      wt_log_slot_new id failing_acquire {WT_SESSION_LOCKED_SLOT}
        (example_log [0x4000000000000005, 0x4000000000000000, WT_LOG_SLOT_FREE])
        = Some (28, log2, failed)
    \<and> log2 = example_log [0x4000000000000005, 0x4000000000000000, WT_LOG_SLOT_FREE]
    \<and> active_slot log2 =
        active_slot (example_log [0x4000000000000005, 0x4000000000000000, WT_LOG_SLOT_FREE])
    \<and> slot_state (slot_at log2 2) = WT_LOG_SLOT_FREE"
  by (rule slot_new_acquire_error)
    (simp_all add: example_log_def example_slot_def slot_at_def failing_acquire_def
      WT_LOG_SLOT_OPEN_def WT_LOG_SLOT_FLAGS_def WT_LOG_SLOT_FREE_def less_2_cases_iff)

text \<open>
  Claim C9. The winning close stores the old state word with the CLOSE flag or-ed in, so
  the JOINED and RELEASED fields are the same after the close as before it; and a release
  after the close that brings RELEASED up to JOINED returns a state that is DONE.
\<close>
theorem slot_close_keeps_counters:
  assumes len: "i < length (slot_pool log)"
    and nc: "\<not> WT_LOG_SLOT_CLOSED (slot_state (slot_at log i))"
    and nr: "\<not> FLD64_ISSET (slot_state (slot_at log i)) WT_LOG_SLOT_RESERVED"
  shows "\<exists>rp log1 failed.
      wt_log_slot_close session log (Some i) releasep = Some (0, rp, log1, failed)
    \<and> slot_state (slot_at log1 i) = slot_state (slot_at log i) OR WT_LOG_SLOT_CLOSE
    \<and> WT_LOG_SLOT_JOINED (slot_state (slot_at log1 i))
        = WT_LOG_SLOT_JOINED (slot_state (slot_at log i))
    \<and> WT_LOG_SLOT_RELEASED (slot_state (slot_at log1 i))
        = WT_LOG_SLOT_RELEASED (slot_state (slot_at log i))
    \<and> (\<forall>myslot sz.
          myslot_slot myslot = Some i
          \<and> unat (WT_LOG_SLOT_RELEASED (slot_state (slot_at log i))) + unat sz
              = unat (WT_LOG_SLOT_JOINED (slot_state (slot_at log i)))
          \<longrightarrow> (\<exists>st log2. wt_log_slot_release log1 myslot sz = Some (Inr (st, log2))
                \<and> WT_LOG_SLOT_DONE st))"
proof -
  let ?old = "slot_state (slot_at log i)"
  from close_wins_aux [OF len nc nr, of session releasep] obtain log1 failed rp where
    c: "wt_log_slot_close session log (Some i) releasep = Some (0, rp, log1, failed)"
    and s: "slot_state (slot_at log1 i) = ?old OR WT_LOG_SLOT_CLOSE"
    by blast
  have len1: "i < length (slot_pool log1)"
    using c len
    by (cases releasep)
      (auto simp: wt_log_slot_close_def slot_close_retry_wins [OF nc nr] slot_set_def)
  have fin: "\<exists>st log2. wt_log_slot_release log1 myslot sz = Some (Inr (st, log2))
                \<and> WT_LOG_SLOT_DONE st"
    if ms: "myslot_slot myslot = Some i"
      and eq: "unat (WT_LOG_SLOT_RELEASED ?old) + unat sz = unat (WT_LOG_SLOT_JOINED ?old)"
    for myslot sz
  proof -
    have fit: "unat (WT_LOG_SLOT_RELEASED (slot_state (slot_at log1 i))) + unat sz < 2 ^ 24"
      using joined_fits [of ?old] eq by (simp add: s released_or_close)
    from release_adds_aux [OF ms len1 fit] obtain log2 st where
      r: "wt_log_slot_release log1 myslot sz = Some (Inr (st, log2))"
      and rr: "WT_LOG_SLOT_RELEASED st = WT_LOG_SLOT_RELEASED (slot_state (slot_at log1 i)) + sz"
      and rj: "WT_LOG_SLOT_JOINED st = WT_LOG_SLOT_JOINED (slot_state (slot_at log1 i))"
      and rf: "WT_LOG_SLOT_FLAGS st = WT_LOG_SLOT_FLAGS (slot_state (slot_at log1 i))"
      by blast
    have "WT_LOG_SLOT_RELEASED ?old + sz = WT_LOG_SLOT_JOINED ?old"
      by (rule word_eq_of_unat_add [OF eq joined_fits])
    then have "WT_LOG_SLOT_JOINED st = WT_LOG_SLOT_RELEASED st"
      by (simp add: rr rj s joined_or_close released_or_close)
    moreover have "WT_LOG_SLOT_CLOSED st"
      unfolding WT_LOG_SLOT_CLOSED_def closed_iff_flags [of st] rf
      unfolding closed_iff_flags [symmetric] s
      using closed_or_close [of ?old] by (simp add: WT_LOG_SLOT_CLOSED_def)
    ultimately show ?thesis
      using r by (simp add: WT_LOG_SLOT_DONE_def)
  qed
  show ?thesis
    using c s fin by (simp add: joined_or_close released_or_close)
qed

theorem slot_close_keeps_counters_witness:
  "\<exists>rp log1 failed.
      wt_log_slot_close {WT_SESSION_LOCKED_SLOT} (example_log [0x300000A]) (Some 0) None
        = Some (0, rp, log1, failed)
    \<and> slot_state (slot_at log1 0) = 0x400000000300000A
    \<and> WT_LOG_SLOT_JOINED (slot_state (slot_at log1 0)) = 10
    \<and> WT_LOG_SLOT_RELEASED (slot_state (slot_at log1 0)) = 3
    \<and> (\<exists>st log2.
          wt_log_slot_release log1
            \<lparr>myslot_slot = Some 0, myslot_offset = 3, myslot_end_offset = 10\<rparr> 7
            = Some (Inr (st, log2))
          \<and> WT_LOG_SLOT_DONE st)"
proof -
  let ?log = "example_log [0x300000A]"
  let ?ms = "\<lparr>myslot_slot = Some 0, myslot_offset = 3, myslot_end_offset = 10\<rparr>"
  have old: "slot_state (slot_at ?log 0) = 0x300000A"
    by (simp add: example_log_def example_slot_def slot_at_def)
  have f: "WT_LOG_SLOT_RELEASED 0x300000A = 3" "WT_LOG_SLOT_JOINED 0x300000A = 10"
    "(0x300000A :: 64 word) OR WT_LOG_SLOT_CLOSE = 0x400000000300000A"
    by (simp_all add: macro_defs WT_LOG_SLOT_CLOSE_def)
  have "\<exists>rp log1 failed.
      wt_log_slot_close {WT_SESSION_LOCKED_SLOT} ?log (Some 0) None = Some (0, rp, log1, failed)
    \<and> slot_state (slot_at log1 0) = slot_state (slot_at ?log 0) OR WT_LOG_SLOT_CLOSE
    \<and> WT_LOG_SLOT_JOINED (slot_state (slot_at log1 0))
        = WT_LOG_SLOT_JOINED (slot_state (slot_at ?log 0))
    \<and> WT_LOG_SLOT_RELEASED (slot_state (slot_at log1 0))
        = WT_LOG_SLOT_RELEASED (slot_state (slot_at ?log 0))
    \<and> (\<forall>myslot sz.
          myslot_slot myslot = Some 0
          \<and> unat (WT_LOG_SLOT_RELEASED (slot_state (slot_at ?log 0))) + unat sz
              = unat (WT_LOG_SLOT_JOINED (slot_state (slot_at ?log 0)))
          \<longrightarrow> (\<exists>st log2. wt_log_slot_release log1 myslot sz = Some (Inr (st, log2))
                \<and> WT_LOG_SLOT_DONE st))"
    by (rule slot_close_keeps_counters)
      (simp_all add: old WT_LOG_SLOT_CLOSED_def FLD64_ISSET_def WT_LOG_SLOT_CLOSE_def
        WT_LOG_SLOT_RESERVED_def, simp add: example_log_def)
  then obtain rp log1 failed where
    c: "wt_log_slot_close {WT_SESSION_LOCKED_SLOT} ?log (Some 0) None
          = Some (0, rp, log1, failed)"
    and s: "slot_state (slot_at log1 0) = 0x400000000300000A"
    and j: "WT_LOG_SLOT_JOINED (slot_state (slot_at log1 0)) = 10"
    and r: "WT_LOG_SLOT_RELEASED (slot_state (slot_at log1 0)) = 3"
    and a: "\<forall>myslot sz.
          myslot_slot myslot = Some 0 \<and> unat (3 :: 64 word) + unat sz = unat (10 :: 64 word)
          \<longrightarrow> (\<exists>st log2. wt_log_slot_release log1 myslot sz = Some (Inr (st, log2))
                \<and> WT_LOG_SLOT_DONE st)"
    unfolding old f by (elim exE conjE) (rule that, assumption+)
  from a [rule_format, of ?ms 7]
  have "\<exists>st log2. wt_log_slot_release log1 ?ms 7 = Some (Inr (st, log2)) \<and> WT_LOG_SLOT_DONE st"
    by simp
  with c s j r show ?thesis by blast
qed

text \<open>
  Claim C10. A join of size 0 into an active slot whose state is OPEN goes through the
  loop and its compare-and-swap, which stores the word it read: the state word is
  unchanged, the call returns 0, and the caller's handle has \<open>offset\<close> = \<open>end_offset\<close> =
  the JOINED count.
\<close>
theorem slot_join_probe:
  assumes act: "active_slot log = Some i"
    and len: "i < length (slot_pool log)"
    and opn: "WT_LOG_SLOT_OPEN (slot_state (slot_at log i))"
  shows "\<exists>log1 failed.
      slot_join_loop yld log 0 =
        Some (Inr (slot_set log i ((slot_at log i)\<lparr>slot_state := slot_state (slot_at log i)\<rparr>),
                   i, ucast (WT_LOG_SLOT_JOINED (slot_state (slot_at log i)))))
    \<and> wt_log_slot_join yld session log 0 flags myslotp =
        Some (Inr (0, log1,
          myslotp\<lparr>myslot_slot := Some i,
                  myslot_offset := WT_LOG_SLOT_JOINED (slot_state (slot_at log i)),
                  myslot_end_offset := WT_LOG_SLOT_JOINED (slot_state (slot_at log i))\<rparr>,
          failed))
    \<and> slot_state (slot_at log1 i) = slot_state (slot_at log i)"
proof -
  let ?old = "slot_state (slot_at log i)"
  have fit: "unat (WT_LOG_SLOT_JOINED ?old) + unat (0 :: 64 word) < 2 ^ 24"
    using joined_fits [of ?old] by simp
  have new: "WT_LOG_SLOT_JOIN_REL
           (scast ((ucast (WT_LOG_SLOT_JOINED ?old) :: 32 word) + ucast (0 :: 64 word)))
           (scast (ucast (WT_LOG_SLOT_RELEASED ?old) :: 32 word))
           (WT_LOG_SLOT_FLAGS ?old) = ?old"
    by (simp only: join_new_state [OF fit] add_0_right join_rel_decompose)
  have loop: "slot_join_loop yld log 0 =
      Some (Inr (slot_set log i ((slot_at log i)\<lparr>slot_state := ?old\<rparr>), i,
                 ucast (WT_LOG_SLOT_JOINED ?old)))"
    by (simp only: slot_join_loop_open [OF act opn] new)
  have off: "(scast (ucast (WT_LOG_SLOT_JOINED ?old) :: 32 word) :: 64 word)
      = WT_LOG_SLOT_JOINED ?old"
    by (rule scast_ucast_small [OF joined_fits])
  show ?thesis
    using act len
    by (simp add: wt_log_slot_join_def loop off slot_at_F_SET_state F_SET_length Let_def)
qed

theorem slot_join_probe_witness:
  "\<exists>log1 failed.
      slot_join_loop id (example_log [0x300000A]) 0 =
        Some (Inr (slot_set (example_log [0x300000A]) 0
                     ((slot_at (example_log [0x300000A]) 0)
                        \<lparr>slot_state := slot_state (slot_at (example_log [0x300000A]) 0)\<rparr>),
                   0, ucast (WT_LOG_SLOT_JOINED (slot_state (slot_at (example_log [0x300000A]) 0)))))
    \<and> wt_log_slot_join id {} (example_log [0x300000A]) 0 {} empty_myslot =
        Some (Inr (0, log1,
          empty_myslot\<lparr>myslot_slot := Some 0,
                  myslot_offset := WT_LOG_SLOT_JOINED (slot_state (slot_at (example_log [0x300000A]) 0)),
                  myslot_end_offset := WT_LOG_SLOT_JOINED (slot_state (slot_at (example_log [0x300000A]) 0))\<rparr>,
          failed))
    \<and> slot_state (slot_at log1 0) = slot_state (slot_at (example_log [0x300000A]) 0)"
  by (rule slot_join_probe)
    (simp_all add: example_log_def example_slot_def slot_at_def macro_defs)

end
